theory Spec2Isabelle
  imports Complex_Main "HOL-Library.Word"
begin

section \<open>Single precision\<close>

text \<open>
  The codec of \<^verbatim>\<open>AnimCurveCompressionCodec_ACL.cpp\<close> adapts the engine's float curves to the
  tracks of the external ACL library. Its \<^verbatim>\<open>float\<close> is the binary32 format. A value of
  that type is modelled by the real number it denotes, and every arithmetic operation of
  the source by the exact operation followed by the rounding \<open>to_float\<close> to the nearest
  single-precision value, ties to the even significand, over the normal and the subnormal
  binades (exponents -126 to 127, 24 significant bits).

  Infinities, NaN and the sign of zero are not represented: a result beyond the largest
  finite value keeps the spacing of the last binade where the source would give an
  infinity. The statements below that depend on it say so.
\<close>

type_synonym float = real

definition round_half_even :: "real \<Rightarrow> int" where
  "round_half_even y =
     (let m = \<lfloor>y\<rfloor>; d = y - of_int m
      in if d < 1 / 2 then m else if 1 / 2 < d then m + 1 else if even m then m else m + 1)"

text \<open>
  The exponent of the binade of a magnitude: the largest \<open>e\<close> from -126 to \<open>n - 126\<close> with
  \<open>2 powi e \<le> x\<close>, and -126 for the subnormal magnitudes.
\<close>

fun binade :: "nat \<Rightarrow> real \<Rightarrow> int" where
  "binade 0 x = - 126"
| "binade (Suc n) x =
     (if 2 powi (int (Suc n) - 126) \<le> x then int (Suc n) - 126 else binade n x)"

definition float_exponent :: "real \<Rightarrow> int" where
  "float_exponent x = binade 253 \<bar>x\<bar>"

definition to_float :: "real \<Rightarrow> float" where
  "to_float x =
     of_int (round_half_even (x / 2 powi (float_exponent x - 23))) * 2 powi (float_exponent x - 23)"

definition fadd :: "float \<Rightarrow> float \<Rightarrow> float" where
  "fadd a b = to_float (a + b)"

definition fmul :: "float \<Rightarrow> float \<Rightarrow> float" where
  "fmul a b = to_float (a * b)"

definition fdiv :: "float \<Rightarrow> float \<Rightarrow> float" where
  "fdiv a b = to_float (a / b)"

definition fsqrt :: "float \<Rightarrow> float" where
  "fsqrt a = to_float (sqrt a)"

text \<open>The conversion of a 32-bit integer, \<^verbatim>\<open>float(NumSamples - 1)\<close> or the index of a product.\<close>

definition float_of_int :: "int \<Rightarrow> float" where
  "float_of_int i = to_float (real_of_int i)"

text \<open>The literal \<^verbatim>\<open>0.0001f\<close> of line 120: the single-precision value nearest to 1/10000.\<close>

definition literal_0_0001f :: float where
  "literal_0_0001f = to_float (1 / 10000)"

section \<open>Data model\<close>

type_synonym byte = "8 word"

type_synonym UID_Type = "16 word"

record FSmartName =
  DisplayName :: string
  UID :: UID_Type

datatype FVector = FVector float float float

record FMorphTargetDelta =
  PositionDelta :: FVector

record UMorphTarget =
  MorphLODModels :: "FMorphTargetDelta list list"

record USkeletalMesh =
  MorphTargets :: "string \<Rightarrow> UMorphTarget option"

text \<open>
  A curve is its name and the engine's rich curve, which the codec only ever evaluates
  (\<^verbatim>\<open>Curve.FloatCurve.Eval(SampleTime)\<close>): the rich curve is its evaluation function.
\<close>

record FFloatCurve =
  Name :: FSmartName
  FloatCurve :: "float \<Rightarrow> float"

record FCompressibleAnimData =
  FloatCurves :: "FFloatCurve list"
  NumFrames :: int
  SequenceLength :: float

record track_desc_scalarf =
  output_index :: nat
  precision :: float
  constant_threshold :: float

record track_float1f =
  track_desc :: track_desc_scalarf
  sample_rate :: float
  samples :: "float list"

record UAnimCurveCompressionCodec_ACL =
  CurvePrecision :: float
  MorphTargetPositionPrecision :: float
  MorphTargetSource :: "USkeletalMesh option"

record FAnimCurveCompressionResult =
  CompressedBytes :: "byte list"
  Codec :: "UAnimCurveCompressionCodec_ACL option"

section \<open>Engine helpers\<close>

text \<open>
  The engine's math templates are not part of the plugin; they are written out as the
  engine defines them: \<^verbatim>\<open>Max(A, B) = (A >= B) ? A : B\<close>,
  \<^verbatim>\<open>Clamp(X, Min, Max) = X < Min ? Min : X < Max ? X : Max\<close>, and the size of a vector as
  the square root of the sum of the squares, each operation in single precision.
\<close>

definition FMath_Max :: "float \<Rightarrow> float \<Rightarrow> float" where
  "FMath_Max A B = (if A \<ge> B then A else B)"

definition FMath_Clamp :: "float \<Rightarrow> float \<Rightarrow> float \<Rightarrow> float" where
  "FMath_Clamp V MinV MaxV = (if V < MinV then MinV else if V < MaxV then V else MaxV)"

fun Size :: "FVector \<Rightarrow> float" where
  "Size (FVector x y z) = fsqrt (fadd (fadd (fmul x x) (fmul y y)) (fmul z z))"

definition FindMorphTarget :: "USkeletalMesh \<Rightarrow> string \<Rightarrow> UMorphTarget option" where
  "FindMorphTarget Mesh MorphTargetName = MorphTargets Mesh MorphTargetName"

text \<open>
  \<^verbatim>\<open>GetMorphTargetDelta(LODIndex, NumDeltas)\<close> returns the deltas of the level of detail,
  and no delta at all when the target has no such level.
\<close>

definition GetMorphTargetDelta :: "UMorphTarget \<Rightarrow> nat \<Rightarrow> FMorphTargetDelta list" where
  "GetMorphTargetDelta Target LODIndex =
     (if LODIndex < length (MorphLODModels Target) then MorphLODModels Target ! LODIndex else [])"

section \<open>Compression\<close>

subsection \<open>GetMorphTargetMaxPositionDeltas\<close>

text \<open>The inner loop over \<^verbatim>\<open>DeltaIndex\<close>: the running maximum of the displacement sizes.\<close>

fun MaxDeltaPosition_loop :: "FMorphTargetDelta list \<Rightarrow> float \<Rightarrow> float" where
  "MaxDeltaPosition_loop [] MaxDeltaPosition = MaxDeltaPosition"
| "MaxDeltaPosition_loop (Delta # Deltas) MaxDeltaPosition =
     MaxDeltaPosition_loop Deltas (FMath_Max MaxDeltaPosition (Size (PositionDelta Delta)))"

text \<open>The body of the loop over \<^verbatim>\<open>CurveIndex\<close>: the value stored for one curve.\<close>

definition CurveMaxDeltaPosition :: "USkeletalMesh \<Rightarrow> FFloatCurve \<Rightarrow> float" where
  "CurveMaxDeltaPosition Mesh Curve =
     (case FindMorphTarget Mesh (DisplayName (Name Curve)) of
        None \<Rightarrow> 0
      | Some Target \<Rightarrow> MaxDeltaPosition_loop (GetMorphTargetDelta Target 0) 0)"

function MorphTargetMaxPositionDeltas_loop ::
  "USkeletalMesh \<Rightarrow> FFloatCurve list \<Rightarrow> nat \<Rightarrow> nat \<Rightarrow> float list \<Rightarrow> float list" where
  "MorphTargetMaxPositionDeltas_loop Mesh Curves NumCurves CurveIndex Deltas =
     (if CurveIndex < NumCurves
      then MorphTargetMaxPositionDeltas_loop Mesh Curves NumCurves (CurveIndex + 1)
             (Deltas[CurveIndex := CurveMaxDeltaPosition Mesh (Curves ! CurveIndex)])
      else Deltas)"
  by pat_completeness auto
termination
  by (relation "measure (\<lambda>(Mesh, Curves, NumCurves, CurveIndex, Deltas). NumCurves - CurveIndex)") auto

declare MorphTargetMaxPositionDeltas_loop.simps [simp del]

definition GetMorphTargetMaxPositionDeltas ::
  "FCompressibleAnimData \<Rightarrow> USkeletalMesh option \<Rightarrow> float list" where
  "GetMorphTargetMaxPositionDeltas AnimSeq Source =
     (let NumCurves = length (FloatCurves AnimSeq);
          MorphTargetMaxPositionDeltas = replicate NumCurves 0
      in case Source of
           None \<Rightarrow> MorphTargetMaxPositionDeltas
         | Some Mesh \<Rightarrow>
             MorphTargetMaxPositionDeltas_loop Mesh (FloatCurves AnimSeq) NumCurves 0
               MorphTargetMaxPositionDeltas)"

subsection \<open>Compress\<close>

text \<open>
  Lines 120 to 122: the static-pose test, the sample rate and its reciprocal, which is
  computed once and rounded.
\<close>

definition bIsStaticPose :: "int \<Rightarrow> float \<Rightarrow> bool" where
  "bIsStaticPose NumSamples Length \<longleftrightarrow> NumSamples \<le> 1 \<or> Length < literal_0_0001f"

definition SampleRate :: "int \<Rightarrow> float \<Rightarrow> float" where
  "SampleRate NumSamples Length =
     (if bIsStaticPose NumSamples Length then 30
      else fdiv (float_of_int (NumSamples - 1)) Length)"

definition InvSampleRate :: "int \<Rightarrow> float \<Rightarrow> float" where
  "InvSampleRate NumSamples Length = fdiv 1 (SampleRate NumSamples Length)"

text \<open>
  Line 159: the local \<^verbatim>\<open>Precision\<close> of a curve, from its largest morph target displacement
  (the precision deriver of the specification).
\<close>

definition derive_precision :: "UAnimCurveCompressionCodec_ACL \<Rightarrow> float \<Rightarrow> float" where
  "derive_precision codec MaxPositionDelta =
     (if MaxPositionDelta > 0 then fdiv (MorphTargetPositionPrecision codec) MaxPositionDelta
      else CurvePrecision codec)"

text \<open>
  Lines 167 to 173: the loop over \<^verbatim>\<open>SampleIndex\<close>, writing \<^verbatim>\<open>Track[SampleIndex]\<close>. The
  index is the signed integer of the source, converted to single precision for the
  product \<^verbatim>\<open>SampleIndex * InvSampleRate\<close>.
\<close>

function Sample_loop ::
  "(float \<Rightarrow> float) \<Rightarrow> float \<Rightarrow> float \<Rightarrow> int \<Rightarrow> int \<Rightarrow> float list \<Rightarrow> float list" where
  "Sample_loop Eval InvRate Length NumSamples SampleIndex Track =
     (if SampleIndex < NumSamples
      then let SampleTime = FMath_Clamp (fmul (float_of_int SampleIndex) InvRate) 0 Length;
               SampleValue = Eval SampleTime
           in Sample_loop Eval InvRate Length NumSamples (SampleIndex + 1)
                (Track[nat SampleIndex := SampleValue])
      else Track)"
  by pat_completeness auto
termination
  by (relation "measure (\<lambda>(Eval, InvRate, Length, NumSamples, SampleIndex, Track).
        nat (NumSamples - SampleIndex))") auto

declare Sample_loop.simps [simp del]

text \<open>
  \<^verbatim>\<open>make_reserve(Desc, Allocator, NumSamples, SampleRate)\<close> reserves \<^verbatim>\<open>NumSamples\<close> samples,
  which the loop then overwrites one by one; a reserved sample reads as 0 here. A negative
  \<^verbatim>\<open>NumSamples\<close>, which the source would convert to an unsigned size, reserves nothing
  here: the statements about the samples are for a number of frames that is not negative.
\<close>

definition make_reserve :: "track_desc_scalarf \<Rightarrow> int \<Rightarrow> float \<Rightarrow> track_float1f" where
  "make_reserve Desc NumSamples Rate =
     \<lparr>track_desc = Desc, sample_rate = Rate, samples = replicate (nat NumSamples) 0\<rparr>"

text \<open>Lines 129 to 173: the track built for the curve at \<^verbatim>\<open>CurveIndex\<close>.\<close>

definition BuildTrack ::
  "UAnimCurveCompressionCodec_ACL \<Rightarrow> FCompressibleAnimData \<Rightarrow> float list \<Rightarrow> nat \<Rightarrow> track_float1f" where
  "BuildTrack codec AnimSeq MorphTargetMaxPositionDeltas CurveIndex =
     (let NumSamples = NumFrames AnimSeq;
          Length = SequenceLength AnimSeq;
          Curve = FloatCurves AnimSeq ! CurveIndex;
          MaxPositionDelta = MorphTargetMaxPositionDeltas ! CurveIndex;
          Precision = derive_precision codec MaxPositionDelta;
          Desc = \<lparr>output_index = CurveIndex, precision = Precision,
                  constant_threshold = Precision\<rparr>;
          Track = make_reserve Desc NumSamples (SampleRate NumSamples Length)
      in Track\<lparr>samples := Sample_loop (FloatCurve Curve) (InvSampleRate NumSamples Length)
                   Length NumSamples 0 (samples Track)\<rparr>)"

text \<open>Lines 127 to 176: the loop over \<^verbatim>\<open>CurveIndex\<close>, storing \<^verbatim>\<open>Tracks[CurveIndex]\<close>.\<close>

function Tracks_loop ::
  "UAnimCurveCompressionCodec_ACL \<Rightarrow> FCompressibleAnimData \<Rightarrow> float list \<Rightarrow> nat \<Rightarrow> nat \<Rightarrow>
   track_float1f list \<Rightarrow> track_float1f list" where
  "Tracks_loop codec AnimSeq MorphTargetMaxPositionDeltas NumCurves CurveIndex Tracks =
     (if CurveIndex < NumCurves
      then Tracks_loop codec AnimSeq MorphTargetMaxPositionDeltas NumCurves (CurveIndex + 1)
             (Tracks[CurveIndex := BuildTrack codec AnimSeq MorphTargetMaxPositionDeltas CurveIndex])
      else Tracks)"
  by pat_completeness auto
termination
  by (relation "measure (\<lambda>(codec, AnimSeq, MorphTargetMaxPositionDeltas, NumCurves, CurveIndex, Tracks).
        NumCurves - CurveIndex)") auto

declare Tracks_loop.simps [simp del]

text \<open>
  A default-constructed track, one per slot of \<^verbatim>\<open>Tracks(AllocatorImpl, NumCurves)\<close>; the
  loop replaces every one of them.
\<close>

definition empty_track :: track_float1f where
  "empty_track = \<lparr>track_desc = \<lparr>output_index = 0, precision = 0, constant_threshold = 0\<rparr>,
                  sample_rate = 0, samples = []\<rparr>"

text \<open>Lines 114 to 176: the track array handed to the compressor.\<close>

definition Compress_Tracks ::
  "UAnimCurveCompressionCodec_ACL \<Rightarrow> FCompressibleAnimData \<Rightarrow> track_float1f list" where
  "Compress_Tracks codec AnimSeq =
     (let MorphTargetMaxPositionDeltas =
            GetMorphTargetMaxPositionDeltas AnimSeq (MorphTargetSource codec);
          NumCurves = length (FloatCurves AnimSeq)
      in Tracks_loop codec AnimSeq MorphTargetMaxPositionDeltas NumCurves 0
           (replicate NumCurves empty_track))"

subsection \<open>The external compressor and the result\<close>

text \<open>
  The ACL library is not part of the plugin. What the codec calls of it is a parameter of
  the model:
  \<^item> \<^verbatim>\<open>compress_track_list\<close> returns an error message (\<^verbatim>\<open>CompressionResult.any()\<close>) or the
    compressed tracks, as the bytes that \<^verbatim>\<open>Memcpy\<close> copies (\<^verbatim>\<open>get_size()\<close> of them);
  \<^item> \<^verbatim>\<open>is_valid(check_hash).empty()\<close> is the validity test of a blob, lightweight when
    \<^verbatim>\<open>check_hash\<close> is false;
  \<^item> \<^verbatim>\<open>get_num_tracks\<close> is the number of tracks of a blob, and \<^verbatim>\<open>sample_track\<close> the value
    that a context positioned at a sample time hands to \<^verbatim>\<open>write_float1\<close> for a track.
\<close>

record acl_library =
  compress_track_list :: "track_float1f list \<Rightarrow> string + byte list"
  is_valid :: "byte list \<Rightarrow> bool \<Rightarrow> bool"
  get_num_tracks :: "byte list \<Rightarrow> nat"
  sample_track :: "byte list \<Rightarrow> float \<Rightarrow> nat \<Rightarrow> float"

text \<open>
  The engine's \<^verbatim>\<open>check\<close> and \<^verbatim>\<open>checkSlow\<close> are macros of the build: where \<^verbatim>\<open>DO_CHECK\<close>
  (for \<^verbatim>\<open>checkSlow\<close>, \<^verbatim>\<open>DO_GUARD_SLOW\<close>) is set, they evaluate their expression and stop the
  program when it is false, a fatal outcome and never a returned value; where it is not
  set, the expression is not evaluated at all. The build is a parameter of the model. An
  index outside of a \<^verbatim>\<open>TArray\<close> is a failed range check in the first kind of build and a read
  outside the array in the second: no result in either.
\<close>

record build_configuration =
  DO_CHECK :: bool
  DO_GUARD_SLOW :: bool

datatype fatal = CheckFailed | RangeCheckFailed

text \<open>
  Lines 178 to 211. Logging and the release of the compressor's buffer change nothing
  of the result and are left out.
\<close>

definition Compress ::
  "build_configuration \<Rightarrow> acl_library \<Rightarrow> UAnimCurveCompressionCodec_ACL \<Rightarrow>
   FCompressibleAnimData \<Rightarrow> FAnimCurveCompressionResult \<Rightarrow>
   fatal + (bool \<times> FAnimCurveCompressionResult)" where
  "Compress build acl codec AnimSeq OutResult =
     (let Tracks = Compress_Tracks codec AnimSeq
      in case compress_track_list acl Tracks of
           Inl CompressionResult \<Rightarrow> Inr (False, OutResult)
         | Inr CompressedTracks \<Rightarrow>
             if DO_GUARD_SLOW build \<and> \<not> is_valid acl CompressedTracks True then Inl CheckFailed
             else Inr (True, OutResult\<lparr>CompressedBytes := CompressedTracks, Codec := Some codec\<rparr>))"

section \<open>Decompression\<close>

record FCompressedAnimSequence =
  CompressedCurveNames :: "FSmartName list"
  CompressedCurveByteStream :: "byte list"

text \<open>
  Modelled from the spec: the engine's \<^verbatim>\<open>FBlendedCurve\<close>, the caller-provided sparse curve
  buffer, is not part of the plugin. It is a value per identity and the set of enabled
  identities. \<^verbatim>\<open>Set\<close> is the plain store: whether a disabled identity is ever written is
  then decided by the plugin's own code.
\<close>

record FBlendedCurve =
  Enabled :: "UID_Type \<Rightarrow> bool"
  CurveWeights :: "UID_Type \<Rightarrow> float"

definition IsEnabled :: "FBlendedCurve \<Rightarrow> UID_Type \<Rightarrow> bool" where
  "IsEnabled Curves InUid = Enabled Curves InUid"

definition Set_Curve :: "FBlendedCurve \<Rightarrow> UID_Type \<Rightarrow> float \<Rightarrow> FBlendedCurve" where
  "Set_Curve Curves InUid InValue = Curves\<lparr>CurveWeights := (CurveWeights Curves)(InUid := InValue)\<rparr>"

text \<open>
  Every call of the library appends itself to the log of calls that the entry point
  threads through, and returns the log with its result: the log of an entry point is what
  its calls leave, in the order in which the source makes them.
\<close>

datatype acl_call = IsValid bool | Initialize | Seek float | DecompressTracks | DecompressTrack nat

record decompression_context =
  context_tracks :: "byte list"
  context_sample_time :: "float option"

definition is_valid_empty ::
  "acl_library \<Rightarrow> byte list \<Rightarrow> bool \<Rightarrow> acl_call list \<Rightarrow> acl_call list \<times> bool" where
  "is_valid_empty acl CompressedTracks check_hash calls =
     (calls @ [IsValid check_hash], is_valid acl CompressedTracks check_hash)"

text \<open>
  \<^verbatim>\<open>check(Expression)\<close>: the log after it, and whether the program goes on.
\<close>

definition check ::
  "build_configuration \<Rightarrow> (acl_call list \<Rightarrow> acl_call list \<times> bool) \<Rightarrow> acl_call list \<Rightarrow>
   acl_call list \<times> bool" where
  "check build Expression calls = (if DO_CHECK build then Expression calls else (calls, True))"

definition initialize :: "byte list \<Rightarrow> acl_call list \<Rightarrow> acl_call list \<times> decompression_context" where
  "initialize CompressedTracks calls =
     (calls @ [Initialize],
      \<lparr>context_tracks = CompressedTracks, context_sample_time = None\<rparr>)"

definition seek ::
  "decompression_context \<Rightarrow> float \<Rightarrow> acl_call list \<Rightarrow> acl_call list \<times> decompression_context" where
  "seek Context SampleTime calls =
     (calls @ [Seek SampleTime], Context\<lparr>context_sample_time := Some SampleTime\<rparr>)"

text \<open>
  \<^verbatim>\<open>decompress_tracks\<close> hands every track of the blob to the writer, in index order;
  \<^verbatim>\<open>decompress_track\<close> hands it the one track asked for. A writer that stops the program
  stops the loop.
\<close>

definition decompress_tracks ::
  "acl_library \<Rightarrow> decompression_context \<Rightarrow> (nat \<Rightarrow> float \<Rightarrow> 'w \<Rightarrow> fatal + 'w) \<Rightarrow> 'w \<Rightarrow>
   acl_call list \<Rightarrow> acl_call list \<times> (fatal + 'w)" where
  "decompress_tracks acl Context write_float1 Writer calls =
     (calls @ [DecompressTracks],
      case context_sample_time Context of
        None \<Rightarrow> Inr Writer
      | Some SampleTime \<Rightarrow>
          fold (\<lambda>TrackIndex Result.
                  case Result of
                    Inl Failure \<Rightarrow> Inl Failure
                  | Inr W \<Rightarrow> write_float1 TrackIndex
                               (sample_track acl (context_tracks Context) SampleTime TrackIndex) W)
            [0 ..< get_num_tracks acl (context_tracks Context)] (Inr Writer))"

definition decompress_track ::
  "acl_library \<Rightarrow> decompression_context \<Rightarrow> nat \<Rightarrow> (nat \<Rightarrow> float \<Rightarrow> 'w \<Rightarrow> 'w) \<Rightarrow> 'w \<Rightarrow>
   acl_call list \<Rightarrow> acl_call list \<times> 'w" where
  "decompress_track acl Context TrackIndex write_float1 Writer calls =
     (calls @ [DecompressTrack TrackIndex],
      case context_sample_time Context of
        None \<Rightarrow> Writer
      | Some SampleTime \<Rightarrow>
          write_float1 TrackIndex
            (sample_track acl (context_tracks Context) SampleTime TrackIndex) Writer)"

subsection \<open>DecompressCurves\<close>

text \<open>Lines 230 to 237: the writer of all curves, on the buffer it refers to.\<close>

definition UE4CurveWriter_write_float1 ::
  "FSmartName list \<Rightarrow> nat \<Rightarrow> float \<Rightarrow> FBlendedCurve \<Rightarrow> fatal + FBlendedCurve" where
  "UE4CurveWriter_write_float1 Names TrackIndex Value Curves =
     (if TrackIndex < length Names
      then let CurveName = Names ! TrackIndex
           in if IsEnabled Curves (UID CurveName)
              then Inr (Set_Curve Curves (UID CurveName) Value)
              else Inr Curves
      else Inl RangeCheckFailed)"

text \<open>Lines 240 to 259. The result is the log of calls and the outcome.\<close>

definition DecompressCurves ::
  "build_configuration \<Rightarrow> acl_library \<Rightarrow> FCompressedAnimSequence \<Rightarrow> FBlendedCurve \<Rightarrow> float \<Rightarrow>
   acl_call list \<times> (fatal + FBlendedCurve)" where
  "DecompressCurves build acl AnimSeq Curves CurrentTime =
     (let Names = CompressedCurveNames AnimSeq;
          NumCurves = length Names
      in if NumCurves = 0 then ([], Inr Curves)
         else let CompressedTracks = CompressedCurveByteStream AnimSeq;
                  (calls1, passed) = check build (is_valid_empty acl CompressedTracks False) []
              in if \<not> passed then (calls1, Inl CheckFailed)
                 else let (calls2, Context0) = initialize CompressedTracks calls1;
                          (calls3, Context) = seek Context0 CurrentTime calls2
                      in decompress_tracks acl Context (UE4CurveWriter_write_float1 Names)
                           Curves calls3)"

subsection \<open>DecompressCurve\<close>

text \<open>Lines 261 to 274: the writer of one curve; its state is \<^verbatim>\<open>SampleValue\<close>.\<close>

definition UE4ScalarCurveWriter :: float where
  "UE4ScalarCurveWriter = 0"

definition UE4ScalarCurveWriter_write_float1 :: "nat \<Rightarrow> float \<Rightarrow> float \<Rightarrow> float" where
  "UE4ScalarCurveWriter_write_float1 TrackIndex Value SampleValue = Value"

text \<open>
  Lines 293 to 301: the scan for the identity, leaving at the first match; the result is
  \<^verbatim>\<open>TrackIndex\<close>, which is -1 when the scan finds nothing.
\<close>

function TrackIndex_loop :: "FSmartName list \<Rightarrow> UID_Type \<Rightarrow> nat \<Rightarrow> nat \<Rightarrow> int" where
  "TrackIndex_loop Names CurveUID NumCurves CurveIndex =
     (if CurveIndex < NumCurves
      then if UID (Names ! CurveIndex) = CurveUID then int CurveIndex
           else TrackIndex_loop Names CurveUID NumCurves (CurveIndex + 1)
      else - 1)"
  by pat_completeness auto
termination
  by (relation "measure (\<lambda>(Names, CurveUID, NumCurves, CurveIndex). NumCurves - CurveIndex)") auto

declare TrackIndex_loop.simps [simp del]

text \<open>Lines 276 to 312. The result is the log of calls and the outcome.\<close>

definition DecompressCurve ::
  "build_configuration \<Rightarrow> acl_library \<Rightarrow> FCompressedAnimSequence \<Rightarrow> UID_Type \<Rightarrow> float \<Rightarrow>
   acl_call list \<times> (fatal + float)" where
  "DecompressCurve build acl AnimSeq CurveUID CurrentTime =
     (let Names = CompressedCurveNames AnimSeq;
          NumCurves = length Names
      in if NumCurves = 0 then ([], Inr 0)
         else let CompressedTracks = CompressedCurveByteStream AnimSeq;
                  (calls1, passed) = check build (is_valid_empty acl CompressedTracks False) []
              in if \<not> passed then (calls1, Inl CheckFailed)
                 else let (calls2, Context0) = initialize CompressedTracks calls1;
                          (calls3, Context) = seek Context0 CurrentTime calls2;
                          TrackIndex = TrackIndex_loop Names CurveUID NumCurves 0
                      in if TrackIndex < 0 then (calls3, Inr 0)
                         else let (calls4, SampleValue) =
                                    decompress_track acl Context (nat TrackIndex)
                                      UE4ScalarCurveWriter_write_float1 UE4ScalarCurveWriter calls3
                              in (calls4, Inr SampleValue))"

section \<open>Example inputs\<close>

text \<open>
  Concrete inputs on which the statements below are evaluated. The builds: one that
  evaluates \<^verbatim>\<open>check\<close>, one that evaluates nothing. For the compression: a mesh with one
  morph target, whose largest displacement is 5; the codec with the two precisions that
  its constructor sets, \<^verbatim>\<open>0.001f\<close> and \<^verbatim>\<open>0.01f\<close>, and that mesh; a sequence of two curves,
  the identity and a step at the time 1, with four frames over one second. For the
  decompression: a library whose blobs hold one byte per track, the value of the track at
  every time, whose validity test refuses the empty blob and whose compressor refuses an
  empty track array; a compressed sequence of three tracks, two of them with the same
  identity; and a curve buffer in which only the identity 3 is enabled.
\<close>

definition development_build :: build_configuration where
  "development_build = \<lparr>DO_CHECK = True, DO_GUARD_SLOW = False\<rparr>"

definition shipping_build :: build_configuration where
  "shipping_build = \<lparr>DO_CHECK = False, DO_GUARD_SLOW = False\<rparr>"

definition example_mesh :: USkeletalMesh where
  "example_mesh = \<lparr>MorphTargets = (\<lambda>MorphTargetName.
     if MorphTargetName = ''Smile''
     then Some \<lparr>MorphLODModels = [[\<lparr>PositionDelta = FVector 3 4 0\<rparr>, \<lparr>PositionDelta = FVector 0 0 1\<rparr>]]\<rparr>
     else None)\<rparr>"

definition example_codec :: UAnimCurveCompressionCodec_ACL where
  "example_codec = \<lparr>CurvePrecision = 8589935 / 8589934592,
     MorphTargetPositionPrecision = 5368709 / 536870912,
     MorphTargetSource = Some example_mesh\<rparr>"

definition example_anim :: FCompressibleAnimData where
  "example_anim = \<lparr>FloatCurves =
       [\<lparr>Name = \<lparr>DisplayName = ''Smile'', UID = 1\<rparr>, FloatCurve = (\<lambda>t. t)\<rparr>,
        \<lparr>Name = \<lparr>DisplayName = ''Blink'', UID = 2\<rparr>, FloatCurve = (\<lambda>t. if 1 \<le> t then 1 else 0)\<rparr>],
     NumFrames = 4, SequenceLength = 1\<rparr>"

definition example_library :: acl_library where
  "example_library =
     \<lparr>compress_track_list = (\<lambda>Tracks. if Tracks = [] then Inl ''no tracks''
                                      else Inr (map (\<lambda>Track. of_nat (length (samples Track))) Tracks)),
      is_valid = (\<lambda>CompressedTracks check_hash. CompressedTracks \<noteq> []),
      get_num_tracks = length,
      sample_track = (\<lambda>CompressedTracks SampleTime TrackIndex.
                        real (unat (CompressedTracks ! TrackIndex)))\<rparr>"

definition example_sequence :: FCompressedAnimSequence where
  "example_sequence =
     \<lparr>CompressedCurveNames = [\<lparr>DisplayName = ''Blink'', UID = 3\<rparr>,
                              \<lparr>DisplayName = ''Smile'', UID = 7\<rparr>,
                              \<lparr>DisplayName = ''Smile'', UID = 7\<rparr>],
      CompressedCurveByteStream = [10, 20, 30]\<rparr>"

definition example_curves :: FBlendedCurve where
  "example_curves = \<lparr>Enabled = (\<lambda>InUid. InUid = 3), CurveWeights = (\<lambda>InUid. 1)\<rparr>"

definition example_result :: FAnimCurveCompressionResult where
  "example_result = \<lparr>CompressedBytes = [1, 2, 3], Codec = None\<rparr>"

section \<open>Predicates of the statements\<close>

text \<open>
  The calls that work on a decompression context: every call of the library but the
  validity test.
\<close>

fun uses_context :: "acl_call \<Rightarrow> bool" where
  "uses_context (IsValid check_hash) = False"
| "uses_context Initialize = True"
| "uses_context (Seek SampleTime) = True"
| "uses_context DecompressTracks = True"
| "uses_context (DecompressTrack TrackIndex) = True"

text \<open>
  What the writer of all curves must leave alone in the buffer \<open>Curves'\<close> it produces from
  \<open>Curves\<close>: the enabled identities, and the value of every identity that is not enabled or
  is not the identity of a track.
\<close>

definition untouched :: "FSmartName list \<Rightarrow> FBlendedCurve \<Rightarrow> FBlendedCurve \<Rightarrow> bool" where
  "untouched Names Curves Curves' \<longleftrightarrow>
     Enabled Curves' = Enabled Curves \<and>
     (\<forall>InUid. \<not> IsEnabled Curves InUid \<or> InUid \<notin> UID ` set Names \<longrightarrow>
        CurveWeights Curves' InUid = CurveWeights Curves InUid)"

section \<open>The rounding\<close>

lemma round_half_even_of_int [simp]: "round_half_even (of_int n) = n"
  by (simp add: round_half_even_def)

lemma round_half_even_bounds:
  "\<lfloor>y\<rfloor> \<le> round_half_even y" "round_half_even y \<le> \<lfloor>y\<rfloor> + 1"
  by (simp_all add: round_half_even_def Let_def)

lemma round_half_even_mono:
  assumes "x \<le> y"
  shows "round_half_even x \<le> round_half_even y"
proof (cases "\<lfloor>x\<rfloor> = \<lfloor>y\<rfloor>")
  case False
  with assms have "\<lfloor>x\<rfloor> < \<lfloor>y\<rfloor>"
    using floor_mono [of x y] by simp
  then have "round_half_even x \<le> \<lfloor>y\<rfloor>"
    using round_half_even_bounds(2) [of x] by simp
  also have "\<dots> \<le> round_half_even y"
    by (rule round_half_even_bounds)
  finally show ?thesis .
next
  case True
  with assms have "x - of_int \<lfloor>x\<rfloor> \<le> y - of_int \<lfloor>y\<rfloor>"
    by simp
  with True show ?thesis
    by (auto simp: round_half_even_def Let_def)
qed

lemma round_half_even_ge: "of_int n \<le> y \<Longrightarrow> n \<le> round_half_even y"
  using round_half_even_mono [of "of_int n" y] by simp

lemma round_half_even_le: "y \<le> of_int n \<Longrightarrow> round_half_even y \<le> n"
  using round_half_even_mono [of y "of_int n"] by simp

lemma binade_range: "- 126 \<le> binade n x \<and> binade n x \<le> int n - 126"
  by (induction n) auto

lemma binade_lower: "binade n x \<noteq> - 126 \<Longrightarrow> 2 powi (binade n x) \<le> x"
  by (induction n) (auto split: if_splits)

lemma binade_upper: "binade n x < int n - 126 \<Longrightarrow> x < 2 powi (binade n x + 1)"
proof (induction n)
  case 0
  then show ?case by simp
next
  case (Suc n)
  show ?case
  proof (cases "2 powi (int (Suc n) - 126) \<le> x")
    case True
    with Suc.prems show ?thesis by simp
  next
    case False
    then have b: "binade (Suc n) x = binade n x" by simp
    show ?thesis
    proof (cases "binade n x < int n - 126")
      case True
      with Suc.IH b show ?thesis by simp
    next
      case top: False
      with binade_range [of n x] have "binade n x = int n - 126" by simp
      then have eq: "binade n x + 1 = int (Suc n) - 126" by simp
      from False have "x < 2 powi (int (Suc n) - 126)" by (simp only: not_le)
      then show ?thesis by (simp only: b eq)
    qed
  qed
qed

lemma binade_mono: "x \<le> y \<Longrightarrow> binade n x \<le> binade n y"
proof (induction n)
  case 0
  then show ?case by simp
next
  case (Suc n)
  show ?case
  proof (cases "2 powi (int (Suc n) - 126) \<le> y")
    case True
    with binade_range [of "Suc n" x] show ?thesis by simp
  next
    case False
    with Suc.prems have "\<not> 2 powi (int (Suc n) - 126) \<le> x" by simp
    with False Suc show ?thesis by simp
  qed
qed

lemma binade_eq:
  assumes "2 powi e \<le> x" and "x < 2 powi (e + 1)" and "- 126 \<le> e" and "e \<le> int n - 126"
  shows "binade n x = e"
proof (rule ccontr)
  assume ne: "binade n x \<noteq> e"
  show False
  proof (cases "binade n x < e")
    case True
    with assms(4) have "x < 2 powi (binade n x + 1)"
      by (intro binade_upper) simp
    also have "\<dots> \<le> 2 powi e"
      using True by (intro power_int_increasing) simp_all
    finally show False using assms(1) by simp
  next
    case False
    with ne have gt: "e < binade n x" by simp
    with assms(3) have "2 powi (binade n x) \<le> x"
      by (intro binade_lower) simp
    moreover have "2 powi (e + 1) \<le> (2::real) powi (binade n x)"
      using gt by (intro power_int_increasing) simp_all
    ultimately show False using assms(2) by simp
  qed
qed

lemma binade_subnormal: "x < 2 powi (- 125) \<Longrightarrow> binade n x = - 126"
proof (induction n)
  case 0
  then show ?case by simp
next
  case (Suc n)
  have "(2::real) powi (- 125) \<le> 2 powi (int (Suc n) - 126)"
    by (intro power_int_increasing) simp_all
  with Suc show ?case by simp
qed

lemma to_float_eval:
  assumes "2 powi e \<le> \<bar>x\<bar>" and "\<bar>x\<bar> < 2 powi (e + 1)" and "- 126 \<le> e" and "e \<le> 127"
  shows "to_float x = of_int (round_half_even (x / 2 powi (e - 23))) * 2 powi (e - 23)"
proof -
  have "float_exponent x = e"
    unfolding float_exponent_def using assms by (intro binade_eq) simp_all
  then show ?thesis
    by (simp add: to_float_def)
qed

lemma to_float_eval_subnormal:
  assumes "\<bar>x\<bar> < 2 powi (- 125)"
  shows "to_float x = of_int (round_half_even (x / 2 powi (- 149))) * 2 powi (- 149)"
proof -
  have "float_exponent x = - 126"
    unfolding float_exponent_def using assms by (rule binade_subnormal)
  then show ?thesis
    by (simp add: to_float_def)
qed

lemma to_float_0 [simp]: "to_float 0 = 0"
  using round_half_even_of_int [of 0] by (simp add: to_float_def)

lemma to_float_nonneg: "0 \<le> x \<Longrightarrow> 0 \<le> to_float x"
proof -
  assume "0 \<le> x"
  then have "0 \<le> x / 2 powi (float_exponent x - 23)" by simp
  then have "0 \<le> round_half_even (x / 2 powi (float_exponent x - 23))"
    using round_half_even_ge [of 0] by simp
  then show ?thesis
    by (simp add: to_float_def)
qed

lemma to_float_mono:
  assumes "0 \<le> x" and "x \<le> y"
  shows "to_float x \<le> to_float y"
proof -
  let ?ex = "float_exponent x" and ?ey = "float_exponent y"
  from assms have ax: "\<bar>x\<bar> = x" and ay: "\<bar>y\<bar> = y" by simp_all
  have le: "?ex \<le> ?ey"
    unfolding float_exponent_def ax ay using assms(2) by (rule binade_mono)
  show ?thesis
  proof (cases "?ex = ?ey")
    case True
    have "x / 2 powi (?ey - 23) \<le> y / 2 powi (?ey - 23)"
      using assms(2) by (simp add: divide_right_mono)
    then have "round_half_even (x / 2 powi (?ey - 23)) \<le> round_half_even (y / 2 powi (?ey - 23))"
      by (rule round_half_even_mono)
    then have "real_of_int (round_half_even (x / 2 powi (?ey - 23))) * 2 powi (?ey - 23)
                \<le> real_of_int (round_half_even (y / 2 powi (?ey - 23))) * 2 powi (?ey - 23)"
      by (intro mult_right_mono) simp_all
    with True show ?thesis
      by (simp add: to_float_def)
  next
    case False
    with le have lt: "?ex < ?ey" by simp
    have r: "- 126 \<le> ?ex" "?ey \<le> 127"
      unfolding float_exponent_def using binade_range [of 253 x] binade_range [of 253 y] ax ay
      by simp_all
    have "x < 2 powi (?ex + 1)"
      using lt r binade_upper [of 253 x] ax by (simp add: float_exponent_def)
    then have "x / 2 powi (?ex - 23) \<le> 2 powi (?ex + 1) / 2 powi (?ex - 23)"
      by (simp add: divide_right_mono)
    also have "(2::real) powi (?ex + 1) / 2 powi (?ex - 23) = 2 powi 24"
      by (simp flip: power_int_diff)
    finally have "x / 2 powi (?ex - 23) \<le> real_of_int (2 ^ 24)"
      by simp
    then have "round_half_even (x / 2 powi (?ex - 23)) \<le> 2 ^ 24"
      by (rule round_half_even_le)
    then have "real_of_int (round_half_even (x / 2 powi (?ex - 23))) * 2 powi (?ex - 23)
                 \<le> real_of_int (2 ^ 24) * 2 powi (?ex - 23)"
      by (intro mult_right_mono) simp_all
    also have "real_of_int (2 ^ 24) * 2 powi (?ex - 23) = 2 powi 24 * 2 powi (?ex - 23)"
      by simp
    also have "\<dots> = 2 powi (24 + (?ex - 23))"
      by (rule power_int_add [symmetric]) simp
    also have "24 + (?ex - 23) = ?ex + 1"
      by simp
    finally have upper: "to_float x \<le> 2 powi (?ex + 1)"
      by (simp add: to_float_def)
    have "2 powi ?ey \<le> y"
      using lt r binade_lower [of 253 y] ay by (simp add: float_exponent_def)
    then have "2 powi ?ey / 2 powi (?ey - 23) \<le> y / 2 powi (?ey - 23)"
      by (simp add: divide_right_mono)
    moreover have "(2::real) powi ?ey / 2 powi (?ey - 23) = 2 powi 23"
      by (simp flip: power_int_diff)
    ultimately have "real_of_int (2 ^ 23) \<le> y / 2 powi (?ey - 23)"
      by simp
    then have m: "2 ^ 23 \<le> round_half_even (y / 2 powi (?ey - 23))"
      by (rule round_half_even_ge)
    have "(2::real) powi ?ey = 2 powi (23 + (?ey - 23))"
      by simp
    also have "\<dots> = 2 powi 23 * 2 powi (?ey - 23)"
      by (rule power_int_add) simp
    also have "\<dots> = real_of_int (2 ^ 23) * 2 powi (?ey - 23)"
      by simp
    also have "\<dots> \<le> real_of_int (round_half_even (y / 2 powi (?ey - 23))) * 2 powi (?ey - 23)"
      using m by (intro mult_right_mono) simp_all
    finally have lower: "2 powi ?ey \<le> to_float y"
      by (simp add: to_float_def)
    have "(2::real) powi (?ex + 1) \<le> 2 powi ?ey"
      using lt by (intro power_int_increasing) simp_all
    with upper lower show ?thesis by linarith
  qed
qed

text \<open>The values that the examples need.\<close>

lemma to_float_1 [simp]: "to_float 1 = 1"
  by (subst to_float_eval [of 0]) (simp_all add: round_half_even_def)

lemma to_float_2 [simp]: "to_float 2 = 2"
  by (subst to_float_eval [of 1]) (simp_all add: round_half_even_def)

lemma to_float_3 [simp]: "to_float 3 = 3"
  by (subst to_float_eval [of 1]) (simp_all add: round_half_even_def)

lemma to_float_5 [simp]: "to_float 5 = 5"
  by (subst to_float_eval [of 2]) (simp_all add: round_half_even_def)

lemma to_float_9 [simp]: "to_float 9 = 9"
  by (subst to_float_eval [of 3]) (simp_all add: round_half_even_def)

lemma to_float_16 [simp]: "to_float 16 = 16"
  by (subst to_float_eval [of 4]) (simp_all add: round_half_even_def)

lemma to_float_25 [simp]: "to_float 25 = 25"
  by (subst to_float_eval [of 4]) (simp_all add: round_half_even_def)

lemma to_float_41 [simp]: "to_float 41 = 41"
  by (subst to_float_eval [of 5]) (simp_all add: round_half_even_def)

lemma to_float_third: "to_float (1 / 3) = 11184811 / 33554432"
  by (subst to_float_eval [of "- 2"]) (simp_all add: round_half_even_def)

lemma to_float_two_thirds: "to_float (11184811 / 16777216) = 11184811 / 16777216"
  by (subst to_float_eval [of "- 1"]) (simp_all add: round_half_even_def)

lemma to_float_41th: "to_float (1 / 41) = 3273603 / 134217728"
  by (subst to_float_eval [of "- 6"]) (simp_all add: round_half_even_def)

lemma to_float_41_41th: "to_float (134217723 / 134217728) = 16777215 / 16777216"
  by (subst to_float_eval [of "- 1"]) (simp_all add: round_half_even_def)

lemma to_float_smallest_rate: "to_float (1 / 2 ^ 127) = 1 / 2 ^ 127"
  by (subst to_float_eval_subnormal) (simp_all add: round_half_even_def)

lemma to_float_largest_reciprocal: "to_float (2 ^ 127) = 2 ^ 127"
  by (subst to_float_eval [of 127]) (simp_all add: round_half_even_def)

lemma literal_0_0001f_value: "literal_0_0001f = 13743895 / 137438953472"
  unfolding literal_0_0001f_def
  by (subst to_float_eval [of "- 14"]) (simp_all add: round_half_even_def)

lemma to_float_10000: "to_float (137438953472 / 13743895) = 10000"
  by (subst to_float_eval [of 13]) (simp_all add: round_half_even_def)

lemma to_float_precision_5: "to_float (5368709 / 2684354560) = 4294967 / 2147483648"
  by (subst to_float_eval [of "- 9"]) (simp_all add: round_half_even_def)

section \<open>The loops\<close>

lemma FMath_Max_eq_max: "FMath_Max A B = max A B"
  by (simp add: FMath_Max_def max_def)

lemma MaxDeltaPosition_loop_ge: "m \<le> MaxDeltaPosition_loop Deltas m"
proof (induction Deltas arbitrary: m)
  case Nil
  show ?case by simp
next
  case (Cons Delta Deltas)
  have "m \<le> FMath_Max m (Size (PositionDelta Delta))"
    by (simp add: FMath_Max_def)
  also have "\<dots> \<le> MaxDeltaPosition_loop Deltas (FMath_Max m (Size (PositionDelta Delta)))"
    by (rule Cons.IH)
  finally show ?case by simp
qed

lemma MaxDeltaPosition_loop_Max:
  "MaxDeltaPosition_loop Deltas m = Max (insert m ((\<lambda>Delta. Size (PositionDelta Delta)) ` set Deltas))"
proof (induction Deltas arbitrary: m)
  case Nil
  show ?case by simp
next
  case (Cons Delta Deltas)
  let ?s = "Size (PositionDelta Delta)"
  let ?S = "(\<lambda>Delta. Size (PositionDelta Delta)) ` set Deltas"
  have "MaxDeltaPosition_loop (Delta # Deltas) m = Max (insert (max m ?s) ?S)"
    by (simp add: Cons.IH FMath_Max_eq_max)
  also have "\<dots> = Max (insert m (insert ?s ?S))"
    by (cases "?S = {}") (simp_all add: max.assoc)
  finally show ?case by simp
qed

lemma CurveMaxDeltaPosition_nonneg: "0 \<le> CurveMaxDeltaPosition Mesh Curve"
  by (simp add: CurveMaxDeltaPosition_def MaxDeltaPosition_loop_ge split: option.split)

lemma MorphTargetMaxPositionDeltas_loop_length:
  "length (MorphTargetMaxPositionDeltas_loop Mesh Curves NumCurves CurveIndex Deltas) = length Deltas"
proof (induction Mesh Curves NumCurves CurveIndex Deltas rule: MorphTargetMaxPositionDeltas_loop.induct)
  case (1 Mesh Curves NumCurves CurveIndex Deltas)
  then show ?case
    by (subst MorphTargetMaxPositionDeltas_loop.simps) simp
qed

lemma MorphTargetMaxPositionDeltas_loop_nth:
  "j < length Deltas \<Longrightarrow>
   MorphTargetMaxPositionDeltas_loop Mesh Curves NumCurves CurveIndex Deltas ! j =
     (if CurveIndex \<le> j \<and> j < NumCurves then CurveMaxDeltaPosition Mesh (Curves ! j) else Deltas ! j)"
proof (induction Mesh Curves NumCurves CurveIndex Deltas rule: MorphTargetMaxPositionDeltas_loop.induct)
  case (1 Mesh Curves NumCurves CurveIndex Deltas)
  let ?v = "CurveMaxDeltaPosition Mesh (Curves ! CurveIndex)"
  show ?case
  proof (cases "CurveIndex < NumCurves")
    case True
    have "MorphTargetMaxPositionDeltas_loop Mesh Curves NumCurves CurveIndex Deltas ! j =
          MorphTargetMaxPositionDeltas_loop Mesh Curves NumCurves (CurveIndex + 1)
            (Deltas[CurveIndex := ?v]) ! j"
      using True by (subst MorphTargetMaxPositionDeltas_loop.simps) simp
    also have "\<dots> = (if CurveIndex + 1 \<le> j \<and> j < NumCurves
                      then CurveMaxDeltaPosition Mesh (Curves ! j)
                      else Deltas[CurveIndex := ?v] ! j)"
      using "1.IH" [OF True] "1.prems" by simp
    also have "\<dots> = (if CurveIndex \<le> j \<and> j < NumCurves
                      then CurveMaxDeltaPosition Mesh (Curves ! j) else Deltas ! j)"
      using True "1.prems" by (cases "j = CurveIndex") (auto simp: nth_list_update)
    finally show ?thesis .
  next
    case False
    then show ?thesis
      by (subst MorphTargetMaxPositionDeltas_loop.simps) auto
  qed
qed

lemma GetMorphTargetMaxPositionDeltas_length:
  "length (GetMorphTargetMaxPositionDeltas AnimSeq Source) = length (FloatCurves AnimSeq)"
  by (simp add: GetMorphTargetMaxPositionDeltas_def Let_def MorphTargetMaxPositionDeltas_loop_length
      split: option.split)

lemma GetMorphTargetMaxPositionDeltas_nth:
  "CurveIndex < length (FloatCurves AnimSeq) \<Longrightarrow>
   GetMorphTargetMaxPositionDeltas AnimSeq Source ! CurveIndex =
     (case Source of None \<Rightarrow> 0
      | Some Mesh \<Rightarrow> CurveMaxDeltaPosition Mesh (FloatCurves AnimSeq ! CurveIndex))"
  by (simp add: GetMorphTargetMaxPositionDeltas_def Let_def MorphTargetMaxPositionDeltas_loop_nth
      split: option.split)

lemma GetMorphTargetMaxPositionDeltas_nonneg:
  "CurveIndex < length (FloatCurves AnimSeq) \<Longrightarrow>
   0 \<le> GetMorphTargetMaxPositionDeltas AnimSeq Source ! CurveIndex"
  by (simp add: GetMorphTargetMaxPositionDeltas_nth CurveMaxDeltaPosition_nonneg split: option.split)

lemma Tracks_loop_length:
  "length (Tracks_loop codec AnimSeq Deltas NumCurves CurveIndex Tracks) = length Tracks"
proof (induction codec AnimSeq Deltas NumCurves CurveIndex Tracks rule: Tracks_loop.induct)
  case (1 codec AnimSeq Deltas NumCurves CurveIndex Tracks)
  then show ?case
    by (subst Tracks_loop.simps) simp
qed

lemma Tracks_loop_nth:
  "j < length Tracks \<Longrightarrow>
   Tracks_loop codec AnimSeq Deltas NumCurves CurveIndex Tracks ! j =
     (if CurveIndex \<le> j \<and> j < NumCurves then BuildTrack codec AnimSeq Deltas j else Tracks ! j)"
proof (induction codec AnimSeq Deltas NumCurves CurveIndex Tracks rule: Tracks_loop.induct)
  case (1 codec AnimSeq Deltas NumCurves CurveIndex Tracks)
  let ?t = "BuildTrack codec AnimSeq Deltas CurveIndex"
  show ?case
  proof (cases "CurveIndex < NumCurves")
    case True
    have "Tracks_loop codec AnimSeq Deltas NumCurves CurveIndex Tracks ! j =
          Tracks_loop codec AnimSeq Deltas NumCurves (CurveIndex + 1) (Tracks[CurveIndex := ?t]) ! j"
      using True by (subst Tracks_loop.simps) simp
    also have "\<dots> = (if CurveIndex + 1 \<le> j \<and> j < NumCurves
                      then BuildTrack codec AnimSeq Deltas j else Tracks[CurveIndex := ?t] ! j)"
      using "1.IH" [OF True] "1.prems" by simp
    also have "\<dots> = (if CurveIndex \<le> j \<and> j < NumCurves
                      then BuildTrack codec AnimSeq Deltas j else Tracks ! j)"
      using True "1.prems" by (cases "j = CurveIndex") (auto simp: nth_list_update)
    finally show ?thesis .
  next
    case False
    then show ?thesis
      by (subst Tracks_loop.simps) auto
  qed
qed

lemma Compress_Tracks_length:
  "length (Compress_Tracks codec AnimSeq) = length (FloatCurves AnimSeq)"
  by (simp add: Compress_Tracks_def Let_def Tracks_loop_length)

lemma Compress_Tracks_nth:
  "CurveIndex < length (FloatCurves AnimSeq) \<Longrightarrow>
   Compress_Tracks codec AnimSeq ! CurveIndex =
     BuildTrack codec AnimSeq (GetMorphTargetMaxPositionDeltas AnimSeq (MorphTargetSource codec)) CurveIndex"
  by (simp add: Compress_Tracks_def Let_def Tracks_loop_nth)

lemma Sample_loop_length:
  "length (Sample_loop Eval InvRate Length NumSamples SampleIndex Track) = length Track"
proof (induction Eval InvRate Length NumSamples SampleIndex Track rule: Sample_loop.induct)
  case (1 Eval InvRate Length NumSamples SampleIndex Track)
  then show ?case
    by (subst Sample_loop.simps) (simp add: Let_def)
qed

lemma Sample_loop_nth:
  "0 \<le> SampleIndex \<Longrightarrow> j < length Track \<Longrightarrow>
   Sample_loop Eval InvRate Length NumSamples SampleIndex Track ! j =
     (if SampleIndex \<le> int j \<and> int j < NumSamples
      then Eval (FMath_Clamp (fmul (float_of_int (int j)) InvRate) 0 Length) else Track ! j)"
proof (induction Eval InvRate Length NumSamples SampleIndex Track rule: Sample_loop.induct)
  case (1 Eval InvRate Length NumSamples SampleIndex Track)
  let ?v = "Eval (FMath_Clamp (fmul (float_of_int SampleIndex) InvRate) 0 Length)"
  show ?case
  proof (cases "SampleIndex < NumSamples")
    case True
    have "Sample_loop Eval InvRate Length NumSamples SampleIndex Track ! j =
          Sample_loop Eval InvRate Length NumSamples (SampleIndex + 1)
            (Track[nat SampleIndex := ?v]) ! j"
      using True by (subst Sample_loop.simps) (simp add: Let_def)
    also have "\<dots> = (if SampleIndex + 1 \<le> int j \<and> int j < NumSamples
                      then Eval (FMath_Clamp (fmul (float_of_int (int j)) InvRate) 0 Length)
                      else Track[nat SampleIndex := ?v] ! j)"
      using "1.IH" [OF True refl refl] "1.prems" by simp
    also have "\<dots> = (if SampleIndex \<le> int j \<and> int j < NumSamples
                      then Eval (FMath_Clamp (fmul (float_of_int (int j)) InvRate) 0 Length)
                      else Track ! j)"
    proof (cases "j = nat SampleIndex")
      case True
      with \<open>SampleIndex < NumSamples\<close> "1.prems" show ?thesis by simp
    next
      case False
      with "1.prems" show ?thesis by (auto simp: nth_list_update)
    qed
    finally show ?thesis .
  next
    case False
    then show ?thesis
      by (subst Sample_loop.simps) auto
  qed
qed

lemma BuildTrack_desc:
  "track_desc (BuildTrack codec AnimSeq Deltas CurveIndex) =
     \<lparr>output_index = CurveIndex, precision = derive_precision codec (Deltas ! CurveIndex),
      constant_threshold = derive_precision codec (Deltas ! CurveIndex)\<rparr>"
  by (simp add: BuildTrack_def Let_def make_reserve_def)

lemma BuildTrack_sample_rate:
  "sample_rate (BuildTrack codec AnimSeq Deltas CurveIndex) =
     SampleRate (NumFrames AnimSeq) (SequenceLength AnimSeq)"
  by (simp add: BuildTrack_def Let_def make_reserve_def)

lemma BuildTrack_samples:
  "samples (BuildTrack codec AnimSeq Deltas CurveIndex) =
     Sample_loop (FloatCurve (FloatCurves AnimSeq ! CurveIndex))
       (InvSampleRate (NumFrames AnimSeq) (SequenceLength AnimSeq)) (SequenceLength AnimSeq)
       (NumFrames AnimSeq) 0 (replicate (nat (NumFrames AnimSeq)) 0)"
  by (simp add: BuildTrack_def Let_def make_reserve_def)

lemma TrackIndex_loop_not_found:
  "(\<And>j. CurveIndex \<le> j \<Longrightarrow> j < NumCurves \<Longrightarrow> UID (Names ! j) \<noteq> CurveUID) \<Longrightarrow>
   TrackIndex_loop Names CurveUID NumCurves CurveIndex = - 1"
proof (induction Names CurveUID NumCurves CurveIndex rule: TrackIndex_loop.induct)
  case (1 Names CurveUID NumCurves CurveIndex)
  show ?case
  proof (cases "CurveIndex < NumCurves")
    case True
    then have ne: "UID (Names ! CurveIndex) \<noteq> CurveUID"
      using "1.prems" by simp
    have "TrackIndex_loop Names CurveUID NumCurves (CurveIndex + 1) = - 1"
      using True ne "1.prems" by (intro "1.IH") simp_all
    with True ne show ?thesis
      by (subst TrackIndex_loop.simps) simp
  next
    case False
    then show ?thesis
      by (subst TrackIndex_loop.simps) simp
  qed
qed

lemma TrackIndex_loop_found:
  "CurveIndex \<le> k \<Longrightarrow> k < NumCurves \<Longrightarrow> UID (Names ! k) = CurveUID \<Longrightarrow>
   (\<And>j. CurveIndex \<le> j \<Longrightarrow> j < k \<Longrightarrow> UID (Names ! j) \<noteq> CurveUID) \<Longrightarrow>
   TrackIndex_loop Names CurveUID NumCurves CurveIndex = int k"
proof (induction Names CurveUID NumCurves CurveIndex rule: TrackIndex_loop.induct)
  case (1 Names CurveUID NumCurves CurveIndex)
  from "1.prems"(1,2) have lt: "CurveIndex < NumCurves" by simp
  show ?case
  proof (cases "UID (Names ! CurveIndex) = CurveUID")
    case True
    have "\<not> CurveIndex < k"
      using True "1.prems"(4) [of CurveIndex] by auto
    with "1.prems"(1) have "k = CurveIndex" by simp
    with lt True show ?thesis
      by (subst TrackIndex_loop.simps) simp
  next
    case False
    with "1.prems"(1,3) have "CurveIndex + 1 \<le> k"
      by (cases "k = CurveIndex") auto
    then have "TrackIndex_loop Names CurveUID NumCurves (CurveIndex + 1) = int k"
      using lt False "1.prems" by (intro "1.IH") simp_all
    with lt False show ?thesis
      by (subst TrackIndex_loop.simps) simp
  qed
qed

lemma TrackIndex_loop_absent:
  "CurveUID \<notin> UID ` set Names \<Longrightarrow> TrackIndex_loop Names CurveUID (length Names) 0 = - 1"
  by (rule TrackIndex_loop_not_found) (auto simp: image_iff)

section \<open>The samples of a track\<close>

text \<open>
  For a sequence of a length up to \<open>2 ^ 127\<close> the sample rate is at least \<open>1 / 2 ^ 127\<close>:
  its reciprocal is never the quotient by zero and stays in the finite range, where the
  rounding of the model is that of the source.
\<close>

lemma SampleRate_lower:
  assumes "Length \<le> 2 ^ 127"
  shows "1 / 2 ^ 127 \<le> SampleRate NumSamples Length"
proof (cases "bIsStaticPose NumSamples Length")
  case True
  have "(1::real) / 2 ^ 127 \<le> 30"
    by simp
  with True show ?thesis by (simp only: SampleRate_def if_True)
next
  case False
  then have N: "1 < NumSamples" and L: "0 < Length"
    by (simp_all add: bIsStaticPose_def literal_0_0001f_value)
  have "to_float 1 \<le> to_float (real_of_int (NumSamples - 1))"
    using N by (intro to_float_mono) simp_all
  then have one: "1 \<le> float_of_int (NumSamples - 1)"
    by (simp add: float_of_int_def)
  have "1 / 2 ^ 127 \<le> 1 / Length"
    using L assms by (intro divide_left_mono) simp_all
  also have "\<dots> \<le> float_of_int (NumSamples - 1) / Length"
    using L one by (intro divide_right_mono) simp_all
  finally have "to_float (1 / 2 ^ 127) \<le> to_float (float_of_int (NumSamples - 1) / Length)"
    by (intro to_float_mono) simp_all
  then have "1 / 2 ^ 127 \<le> to_float (float_of_int (NumSamples - 1) / Length)"
    by (simp only: to_float_smallest_rate)
  with False show ?thesis
    by (simp only: SampleRate_def fdiv_def if_False)
qed

lemma InvSampleRate_finite:
  assumes "Length \<le> 2 ^ 127"
  shows "0 < SampleRate NumSamples Length \<and>
         0 \<le> InvSampleRate NumSamples Length \<and> InvSampleRate NumSamples Length \<le> 2 ^ 127"
proof -
  let ?r = "SampleRate NumSamples Length"
  have lower: "1 / 2 ^ 127 \<le> ?r"
    using assms by (rule SampleRate_lower)
  moreover have "(0::real) < 1 / 2 ^ 127"
    by simp
  ultimately have pos: "0 < ?r"
    by (rule less_le_trans [rotated])
  have "1 / ?r \<le> 1 / (1 / 2 ^ 127)"
    using lower by (intro divide_left_mono) simp_all
  then have "1 / ?r \<le> 2 ^ 127"
    by simp
  moreover have "0 \<le> 1 / ?r"
    using pos by simp
  ultimately have "to_float (1 / ?r) \<le> to_float (2 ^ 127)" and "0 \<le> to_float (1 / ?r)"
    by (auto intro: to_float_mono to_float_nonneg)
  then have "0 \<le> InvSampleRate NumSamples Length" and "InvSampleRate NumSamples Length \<le> 2 ^ 127"
    by (simp_all only: InvSampleRate_def fdiv_def to_float_largest_reciprocal)
  with pos show ?thesis
    by simp
qed

lemma Compress_Tracks_samples_length:
  assumes "CurveIndex < length (FloatCurves AnimSeq)"
  shows "length (samples (Compress_Tracks codec AnimSeq ! CurveIndex)) = nat (NumFrames AnimSeq)"
  using assms by (simp add: Compress_Tracks_nth BuildTrack_samples Sample_loop_length)

lemma Compress_Tracks_samples_nth:
  assumes "CurveIndex < length (FloatCurves AnimSeq)" and "SampleIndex < nat (NumFrames AnimSeq)"
  shows "samples (Compress_Tracks codec AnimSeq ! CurveIndex) ! SampleIndex =
           FloatCurve (FloatCurves AnimSeq ! CurveIndex)
             (FMath_Clamp
                (fmul (float_of_int (int SampleIndex))
                   (InvSampleRate (NumFrames AnimSeq) (SequenceLength AnimSeq)))
                0 (SequenceLength AnimSeq))"
proof -
  from assms(2) have "int SampleIndex < NumFrames AnimSeq" by simp
  with assms show ?thesis
    by (simp add: Compress_Tracks_nth BuildTrack_samples Sample_loop_nth)
qed

lemma singleton_list: "length xs = 1 \<Longrightarrow> xs = [xs ! 0]"
  by (cases xs) simp_all

lemma Compress_Tracks_single_sample:
  assumes "CurveIndex < length (FloatCurves AnimSeq)" and "NumFrames AnimSeq = 1"
  shows "samples (Compress_Tracks codec AnimSeq ! CurveIndex) =
           [FloatCurve (FloatCurves AnimSeq ! CurveIndex)
              (FMath_Clamp 0 0 (SequenceLength AnimSeq))]"
proof -
  let ?T = "samples (Compress_Tracks codec AnimSeq ! CurveIndex)"
  have "length ?T = 1"
    using assms by (simp add: Compress_Tracks_samples_length)
  then have "?T = [?T ! 0]"
    by (rule singleton_list)
  also have "?T ! 0 = FloatCurve (FloatCurves AnimSeq ! CurveIndex)
                        (FMath_Clamp 0 0 (SequenceLength AnimSeq))"
    using assms by (simp add: Compress_Tracks_samples_nth fmul_def float_of_int_def)
  finally show ?thesis .
qed

lemma Compress_Tracks_no_curves:
  "FloatCurves AnimSeq = [] \<Longrightarrow> Compress_Tracks codec AnimSeq = []"
  using Compress_Tracks_length [of codec AnimSeq] by simp

section \<open>Evaluating the examples\<close>

lemma Size_3_4_0: "Size (FVector 3 4 0) = 5"
proof -
  have "sqrt 25 = 5" by (rule real_sqrt_unique) simp_all
  then show ?thesis by (simp add: fmul_def fadd_def fsqrt_def)
qed

lemma Size_0_0_1: "Size (FVector 0 0 1) = 1"
  by (simp add: fmul_def fadd_def fsqrt_def)

lemma example_deltas:
  "GetMorphTargetMaxPositionDeltas example_anim (MorphTargetSource example_codec) = [5, 0]"
  apply (simp add: GetMorphTargetMaxPositionDeltas_def example_anim_def example_codec_def Let_def)
  apply (subst MorphTargetMaxPositionDeltas_loop.simps, simp)+
  apply (simp add: CurveMaxDeltaPosition_def FindMorphTarget_def example_mesh_def
      GetMorphTargetDelta_def FMath_Max_def Size_3_4_0 Size_0_0_1 del: Size.simps)
  done

lemma example_precision: "derive_precision example_codec 5 = 4294967 / 2147483648"
proof -
  have "derive_precision example_codec 5 = to_float (5368709 / 2684354560)"
    by (simp add: derive_precision_def example_codec_def fdiv_def)
  then show ?thesis
    by (simp only: to_float_precision_5)
qed

lemma example_SampleRate: "SampleRate 4 1 = 3"
  by (simp add: SampleRate_def bIsStaticPose_def literal_0_0001f_value fdiv_def float_of_int_def)

lemma example_InvSampleRate: "InvSampleRate 4 1 = 11184811 / 33554432"
  by (simp add: InvSampleRate_def example_SampleRate fdiv_def to_float_third)

lemma example_SampleRate_42: "SampleRate 42 1 = 41"
  by (simp add: SampleRate_def bIsStaticPose_def literal_0_0001f_value fdiv_def float_of_int_def)

lemma example_InvSampleRate_42: "InvSampleRate 42 1 = 3273603 / 134217728"
  by (simp add: InvSampleRate_def example_SampleRate_42 fdiv_def to_float_41th)

lemma example_last_time: "fmul (float_of_int 41) (3273603 / 134217728) = 16777215 / 16777216"
proof -
  have "fmul (float_of_int 41) (3273603 / 134217728) = to_float (134217723 / 134217728)"
    by (simp add: fmul_def float_of_int_def)
  then show ?thesis
    by (simp only: to_float_41_41th)
qed

lemma example_SampleRate_threshold: "SampleRate 2 (13743895 / 137438953472) = 10000"
proof -
  have "SampleRate 2 (13743895 / 137438953472) = to_float (137438953472 / 13743895)"
    by (simp add: SampleRate_def bIsStaticPose_def literal_0_0001f_value fdiv_def float_of_int_def)
  then show ?thesis
    by (simp only: to_float_10000)
qed

section \<open>The entry points of the decompression\<close>

text \<open>The log and the outcome of each entry point, case by case.\<close>

lemma DecompressCurves_eq:
  "DecompressCurves build acl AnimSeq Curves CurrentTime =
     (if CompressedCurveNames AnimSeq = [] then ([], Inr Curves)
      else if DO_CHECK build \<and> \<not> is_valid acl (CompressedCurveByteStream AnimSeq) False
      then ([IsValid False], Inl CheckFailed)
      else ((if DO_CHECK build then [IsValid False] else []) @
              [Initialize, Seek CurrentTime, DecompressTracks],
            fold (\<lambda>TrackIndex Result.
                    case Result of
                      Inl Failure \<Rightarrow> Inl Failure
                    | Inr W \<Rightarrow> UE4CurveWriter_write_float1 (CompressedCurveNames AnimSeq) TrackIndex
                                 (sample_track acl (CompressedCurveByteStream AnimSeq) CurrentTime
                                    TrackIndex) W)
              [0 ..< get_num_tracks acl (CompressedCurveByteStream AnimSeq)] (Inr Curves)))"
  by (simp add: DecompressCurves_def Let_def check_def is_valid_empty_def initialize_def seek_def
      decompress_tracks_def)

lemma DecompressCurve_eq:
  "DecompressCurve build acl AnimSeq CurveUID CurrentTime =
     (if CompressedCurveNames AnimSeq = [] then ([], Inr 0)
      else if DO_CHECK build \<and> \<not> is_valid acl (CompressedCurveByteStream AnimSeq) False
      then ([IsValid False], Inl CheckFailed)
      else if TrackIndex_loop (CompressedCurveNames AnimSeq) CurveUID
                (length (CompressedCurveNames AnimSeq)) 0 < 0
      then ((if DO_CHECK build then [IsValid False] else []) @ [Initialize, Seek CurrentTime],
            Inr 0)
      else ((if DO_CHECK build then [IsValid False] else []) @
              [Initialize, Seek CurrentTime,
               DecompressTrack (nat (TrackIndex_loop (CompressedCurveNames AnimSeq) CurveUID
                                       (length (CompressedCurveNames AnimSeq)) 0))],
            Inr (sample_track acl (CompressedCurveByteStream AnimSeq) CurrentTime
                   (nat (TrackIndex_loop (CompressedCurveNames AnimSeq) CurveUID
                           (length (CompressedCurveNames AnimSeq)) 0)))))"
  by (simp add: DecompressCurve_def Let_def check_def is_valid_empty_def initialize_def seek_def
      decompress_track_def UE4ScalarCurveWriter_write_float1_def)

lemma DecompressCurve_first_match:
  assumes "k < length (CompressedCurveNames AnimSeq)"
    and "UID (CompressedCurveNames AnimSeq ! k) = CurveUID"
    and "\<And>j. j < k \<Longrightarrow> UID (CompressedCurveNames AnimSeq ! j) \<noteq> CurveUID"
  shows "DecompressCurve build acl AnimSeq CurveUID CurrentTime =
           (if DO_CHECK build \<and> \<not> is_valid acl (CompressedCurveByteStream AnimSeq) False
            then ([IsValid False], Inl CheckFailed)
            else ((if DO_CHECK build then [IsValid False] else []) @
                    [Initialize, Seek CurrentTime, DecompressTrack k],
                  Inr (sample_track acl (CompressedCurveByteStream AnimSeq) CurrentTime k)))"
proof -
  have "TrackIndex_loop (CompressedCurveNames AnimSeq) CurveUID
          (length (CompressedCurveNames AnimSeq)) 0 = int k"
    using assms by (intro TrackIndex_loop_found) simp_all
  with assms(1) show ?thesis
    by (auto simp: DecompressCurve_eq)
qed

lemma DecompressCurve_absent:
  assumes "CurveUID \<notin> UID ` set (CompressedCurveNames AnimSeq)"
  shows "DecompressCurve build acl AnimSeq CurveUID CurrentTime =
           (if CompressedCurveNames AnimSeq = [] then ([], Inr 0)
            else if DO_CHECK build \<and> \<not> is_valid acl (CompressedCurveByteStream AnimSeq) False
            then ([IsValid False], Inl CheckFailed)
            else ((if DO_CHECK build then [IsValid False] else []) @
                    [Initialize, Seek CurrentTime], Inr 0))"
  using TrackIndex_loop_absent [OF assms]
  by (simp add: DecompressCurve_eq)

text \<open>A log that begins with the lightweight validity test.\<close>

lemma validated_head:
  assumes "uses_context ((IsValid False # rest) ! k)"
  shows "\<exists>j < k. (IsValid False # rest) ! j = IsValid False"
  using assms by (cases k) auto

lemma validated_calls:
  assumes "calls = (if Names = [] then [] else if valid then IsValid False # rest else [IsValid False])"
  shows "(\<forall>k < length calls. uses_context (calls ! k) \<longrightarrow>
            (\<exists>j < k. calls ! j = IsValid False) \<and> valid) \<and>
         (Names \<noteq> [] \<longrightarrow> calls \<noteq> [] \<and> hd calls = IsValid False)"
proof (cases "Names = []")
  case True
  with assms show ?thesis by simp
next
  case False
  show ?thesis
  proof (cases valid)
    case True
    with False assms have c: "calls = IsValid False # rest" by simp
    show ?thesis
      unfolding c using True validated_head [of rest] by simp
  next
    case invalid: False
    with False assms have c: "calls = [IsValid False]" by simp
    show ?thesis
      unfolding c by simp
  qed
qed

lemma untouched_refl: "untouched Names Curves Curves"
  by (simp add: untouched_def)

lemma write_float1_untouched:
  assumes "untouched Names Curves W"
    and "UE4CurveWriter_write_float1 Names TrackIndex Value W = Inr W'"
  shows "untouched Names Curves W'"
proof (cases "TrackIndex < length Names")
  case False
  with assms(2) show ?thesis
    by (simp add: UE4CurveWriter_write_float1_def)
next
  case True
  let ?u = "UID (Names ! TrackIndex)"
  from True have mem: "?u \<in> UID ` set Names" by simp
  show ?thesis
  proof (cases "IsEnabled W ?u")
    case False
    with True assms show ?thesis
      by (simp add: UE4CurveWriter_write_float1_def Let_def)
  next
    case enabled: True
    with True assms(2) have W': "W' = Set_Curve W ?u Value"
      by (simp add: UE4CurveWriter_write_float1_def Let_def)
    from enabled assms(1) have "IsEnabled Curves ?u"
      by (simp add: untouched_def IsEnabled_def)
    with assms(1) mem show ?thesis
      unfolding W' untouched_def Set_Curve_def IsEnabled_def by auto
  qed
qed

lemma fold_write_float1_untouched:
  assumes "untouched Names Curves W"
    and "fold (\<lambda>TrackIndex Result.
                 case Result of
                   Inl Failure \<Rightarrow> Inl Failure
                 | Inr W0 \<Rightarrow> UE4CurveWriter_write_float1 Names TrackIndex (value_of TrackIndex) W0)
           TrackIndices (Inr W) = Inr W'"
  shows "untouched Names Curves W'"
  using assms
proof (induction TrackIndices arbitrary: W)
  case Nil
  then show ?case by simp
next
  case (Cons TrackIndex TrackIndices)
  let ?step = "\<lambda>TrackIndex Result.
                 case Result of
                   Inl Failure \<Rightarrow> Inl Failure
                 | Inr W0 \<Rightarrow> UE4CurveWriter_write_float1 Names TrackIndex (value_of TrackIndex) W0"
  show ?case
  proof (cases "UE4CurveWriter_write_float1 Names TrackIndex (value_of TrackIndex) W")
    case (Inl Failure)
    have "fold ?step TrackIndices (Inl Failure) = Inl Failure"
      by (induction TrackIndices) simp_all
    with Inl Cons.prems(2) show ?thesis by simp
  next
    case (Inr W1)
    have "untouched Names Curves W1"
      using Cons.prems(1) Inr by (rule write_float1_untouched)
    moreover from Inr Cons.prems(2) have "fold ?step TrackIndices (Inr W1) = Inr W'"
      by simp
    ultimately show ?thesis by (rule Cons.IH)
  qed
qed

lemma DecompressCurves_untouched:
  assumes "snd (DecompressCurves build acl AnimSeq Curves CurrentTime) = Inr Curves'"
  shows "untouched (CompressedCurveNames AnimSeq) Curves Curves'"
proof (cases "CompressedCurveNames AnimSeq = []")
  case True
  with assms show ?thesis
    by (simp add: DecompressCurves_eq untouched_refl)
next
  case False
  show ?thesis
  proof (cases "DO_CHECK build \<and> \<not> is_valid acl (CompressedCurveByteStream AnimSeq) False")
    case True
    with False assms show ?thesis
      by (simp add: DecompressCurves_eq)
  next
    case decoded: False
    with False assms
    have "fold (\<lambda>TrackIndex Result.
                  case Result of
                    Inl Failure \<Rightarrow> Inl Failure
                  | Inr W \<Rightarrow> UE4CurveWriter_write_float1 (CompressedCurveNames AnimSeq) TrackIndex
                               (sample_track acl (CompressedCurveByteStream AnimSeq) CurrentTime
                                  TrackIndex) W)
            [0 ..< get_num_tracks acl (CompressedCurveByteStream AnimSeq)] (Inr Curves) = Inr Curves'"
      by (simp add: DecompressCurves_eq)
    then show ?thesis
      by (rule fold_write_float1_untouched [OF untouched_refl])
  qed
qed

lemma example_DecompressCurves:
  "snd (DecompressCurves development_build example_library example_sequence example_curves 0) =
     Inr (example_curves\<lparr>CurveWeights := (CurveWeights example_curves)(3 := 10)\<rparr>)"
  apply (simp add: DecompressCurves_eq example_sequence_def example_library_def)
  apply (simp add: UE4CurveWriter_write_float1_def IsEnabled_def Set_Curve_def example_curves_def Let_def)
  done

lemma example_TrackIndex:
  "TrackIndex_loop (CompressedCurveNames example_sequence) 7
     (length (CompressedCurveNames example_sequence)) 0 = 1"
  using TrackIndex_loop_found [of 0 1 "length (CompressedCurveNames example_sequence)"
          "CompressedCurveNames example_sequence" 7]
  by (simp add: example_sequence_def)

section \<open>Properties of the compression\<close>

text \<open>
  C1. For every curve, the precision of its track is the configured morph target
  precision divided, in single precision, by the curve's largest morph target displacement
  when that displacement is positive, and the configured curve precision when it is 0.
  The displacement is never negative, so these are all the cases, and the division is
  only ever by a positive number.
\<close>

theorem derived_precision_of_curve:
  assumes "CurveIndex < length (FloatCurves AnimSeq)"
  shows "let MaxPositionDelta =
               GetMorphTargetMaxPositionDeltas AnimSeq (MorphTargetSource codec) ! CurveIndex;
             Precision = precision (track_desc (Compress_Tracks codec AnimSeq ! CurveIndex))
         in (MaxPositionDelta > 0 \<longrightarrow>
               MaxPositionDelta \<noteq> 0 \<and>
               Precision = fdiv (MorphTargetPositionPrecision codec) MaxPositionDelta) \<and>
            (MaxPositionDelta = 0 \<longrightarrow> Precision = CurvePrecision codec) \<and>
            (MaxPositionDelta > 0 \<or> MaxPositionDelta = 0)"
proof -
  let ?d = "GetMorphTargetMaxPositionDeltas AnimSeq (MorphTargetSource codec) ! CurveIndex"
  have p: "precision (track_desc (Compress_Tracks codec AnimSeq ! CurveIndex)) = derive_precision codec ?d"
    using assms by (simp add: Compress_Tracks_nth BuildTrack_desc)
  have "0 \<le> ?d"
    using assms by (rule GetMorphTargetMaxPositionDeltas_nonneg)
  then have "?d > 0 \<or> ?d = 0" by linarith
  with p show ?thesis
    by (auto simp: Let_def derive_precision_def)
qed

theorem derived_precision_of_curve_witness:
  "0 < length (FloatCurves example_anim) \<and>
   GetMorphTargetMaxPositionDeltas example_anim (MorphTargetSource example_codec) ! 0 = 5 \<and>
   precision (track_desc (Compress_Tracks example_codec example_anim ! 0)) =
     4294967 / 2147483648 \<and>
   1 < length (FloatCurves example_anim) \<and>
   GetMorphTargetMaxPositionDeltas example_anim (MorphTargetSource example_codec) ! 1 = 0 \<and>
   precision (track_desc (Compress_Tracks example_codec example_anim ! 1)) =
     8589935 / 8589934592"
proof -
  have l: "length (FloatCurves example_anim) = 2"
    by (simp add: example_anim_def)
  have c: "CurvePrecision example_codec = 8589935 / 8589934592"
    by (simp add: example_codec_def)
  have p: "fdiv (MorphTargetPositionPrecision example_codec) 5 = 4294967 / 2147483648"
    using example_precision by (simp add: derive_precision_def)
  show ?thesis
    using derived_precision_of_curve [of 0 example_anim example_codec]
      derived_precision_of_curve [of 1 example_anim example_codec]
    by (simp add: l c p example_deltas Let_def)
qed

text \<open>
  C3. The sample rate of every track is 30 when there is at most one sample or the
  length of the sequence is below the threshold, and otherwise the number of samples less
  one divided by the length, in single precision. The threshold is the literal
  \<^verbatim>\<open>0.0001f\<close>, the single-precision value nearest to 1e-4, which is 13743895/137438953472.
  That rate is the one the resampling uses: every sample of the track is taken at the
  index times the rounded reciprocal of that rate, clamped; this part is for a length up
  to \<open>2 ^ 127\<close>, beyond which the reciprocal can be an infinity in the source.
\<close>

theorem sample_rate_of_track:
  assumes "CurveIndex < length (FloatCurves AnimSeq)"
  shows "let NumSamples = NumFrames AnimSeq;
             Length = SequenceLength AnimSeq;
             Rate = (if NumSamples \<le> 1 \<or> Length < 13743895 / 137438953472 then 30
                     else fdiv (float_of_int (NumSamples - 1)) Length);
             Track = Compress_Tracks codec AnimSeq ! CurveIndex
         in sample_rate Track = Rate \<and>
            (Length \<le> 2 ^ 127 \<longrightarrow>
               (\<forall>SampleIndex < length (samples Track).
                  samples Track ! SampleIndex =
                    FloatCurve (FloatCurves AnimSeq ! CurveIndex)
                      (FMath_Clamp (fmul (float_of_int (int SampleIndex)) (fdiv 1 Rate)) 0 Length)))"
proof -
  let ?N = "NumFrames AnimSeq"
  let ?L = "SequenceLength AnimSeq"
  let ?T = "Compress_Tracks codec AnimSeq ! CurveIndex"
  have rate: "SampleRate ?N ?L =
                (if ?N \<le> 1 \<or> ?L < 13743895 / 137438953472 then 30
                 else fdiv (float_of_int (?N - 1)) ?L)"
    by (simp add: SampleRate_def bIsStaticPose_def literal_0_0001f_value)
  have stored: "sample_rate ?T = SampleRate ?N ?L"
    using assms by (simp add: Compress_Tracks_nth BuildTrack_sample_rate)
  have used: "samples ?T ! i =
                FloatCurve (FloatCurves AnimSeq ! CurveIndex)
                  (FMath_Clamp (fmul (float_of_int (int i)) (fdiv 1 (SampleRate ?N ?L))) 0 ?L)"
    if "i < length (samples ?T)" for i
    using that assms
    by (simp add: Compress_Tracks_samples_length Compress_Tracks_samples_nth InvSampleRate_def)
  from stored used show ?thesis
    unfolding Let_def rate [symmetric] by simp
qed

theorem sample_rate_of_track_witness:
  "0 < length (FloatCurves example_anim) \<and>
   sample_rate (Compress_Tracks example_codec example_anim ! 0) = 3 \<and>
   SequenceLength example_anim \<le> 2 ^ 127 \<and>
   2 < length (samples (Compress_Tracks example_codec example_anim ! 0)) \<and>
   samples (Compress_Tracks example_codec example_anim ! 0) ! 2 = 11184811 / 16777216 \<and>
   sample_rate (Compress_Tracks example_codec (example_anim\<lparr>NumFrames := 1\<rparr>) ! 0) = 30 \<and>
   sample_rate (Compress_Tracks example_codec (example_anim\<lparr>SequenceLength := 0\<rparr>) ! 0) = 30 \<and>
   sample_rate (Compress_Tracks example_codec
     (example_anim\<lparr>NumFrames := 2, SequenceLength := 13743895 / 137438953472\<rparr>) ! 0) = 10000"
proof -
  have l: "length (FloatCurves example_anim) = 2" "NumFrames example_anim = 4"
    "SequenceLength example_anim = 1" "FloatCurve (FloatCurves example_anim ! 0) = (\<lambda>t. t)"
    by (simp_all add: example_anim_def)
  have n: "length (samples (Compress_Tracks example_codec example_anim ! 0)) = 4"
    by (simp add: Compress_Tracks_samples_length l)
  have r: "fdiv (float_of_int 3) 1 = 3" "fdiv 1 3 = 11184811 / 33554432"
    using example_SampleRate example_InvSampleRate
    by (simp_all add: fdiv_def float_of_int_def to_float_third)
  have t: "FMath_Clamp (fmul (float_of_int 2) (11184811 / 33554432)) 0 1 = 11184811 / 16777216"
    by (simp add: fmul_def float_of_int_def to_float_two_thirds FMath_Clamp_def)
  have k: "fdiv (float_of_int 1) (13743895 / 137438953472) = 10000"
  proof -
    have "fdiv (float_of_int 1) (13743895 / 137438953472) = to_float (137438953472 / 13743895)"
      by (simp add: fdiv_def float_of_int_def)
    then show ?thesis by (simp only: to_float_10000)
  qed
  from sample_rate_of_track [of 0 example_anim example_codec]
  have a: "sample_rate (Compress_Tracks example_codec example_anim ! 0) = 3 \<and>
           samples (Compress_Tracks example_codec example_anim ! 0) ! 2 = 11184811 / 16777216"
    by (simp add: l n r t Let_def)
  from sample_rate_of_track [of 0 "example_anim\<lparr>NumFrames := 1\<rparr>" example_codec]
  have b: "sample_rate (Compress_Tracks example_codec (example_anim\<lparr>NumFrames := 1\<rparr>) ! 0) = 30"
    by (simp add: l Let_def)
  from sample_rate_of_track [of 0 "example_anim\<lparr>SequenceLength := 0\<rparr>" example_codec]
  have c: "sample_rate (Compress_Tracks example_codec (example_anim\<lparr>SequenceLength := 0\<rparr>) ! 0) = 30"
    by (simp add: l Let_def)
  from sample_rate_of_track
         [of 0 "example_anim\<lparr>NumFrames := 2, SequenceLength := 13743895 / 137438953472\<rparr>" example_codec]
  have d: "sample_rate (Compress_Tracks example_codec
             (example_anim\<lparr>NumFrames := 2, SequenceLength := 13743895 / 137438953472\<rparr>) ! 0) = 10000"
    by (simp add: l k Let_def)
  from a b c d l n show ?thesis
    by simp
qed

text \<open>
  C4. The array holds one track per curve; the output index of a track is the position
  of its curve, and its precision and its constant threshold are equal, both the
  precision derived for the curve.
\<close>

theorem track_slot_and_thresholds:
  assumes "CurveIndex < length (FloatCurves AnimSeq)"
  shows "length (Compress_Tracks codec AnimSeq) = length (FloatCurves AnimSeq) \<and>
         output_index (track_desc (Compress_Tracks codec AnimSeq ! CurveIndex)) = CurveIndex \<and>
         precision (track_desc (Compress_Tracks codec AnimSeq ! CurveIndex)) =
           constant_threshold (track_desc (Compress_Tracks codec AnimSeq ! CurveIndex)) \<and>
         precision (track_desc (Compress_Tracks codec AnimSeq ! CurveIndex)) =
           derive_precision codec
             (GetMorphTargetMaxPositionDeltas AnimSeq (MorphTargetSource codec) ! CurveIndex)"
  using assms by (simp add: Compress_Tracks_length Compress_Tracks_nth BuildTrack_desc)

theorem track_slot_and_thresholds_witness:
  "1 < length (FloatCurves example_anim) \<and>
   length (Compress_Tracks example_codec example_anim) = 2 \<and>
   output_index (track_desc (Compress_Tracks example_codec example_anim ! 1)) = 1 \<and>
   precision (track_desc (Compress_Tracks example_codec example_anim ! 1)) =
     8589935 / 8589934592 \<and>
   constant_threshold (track_desc (Compress_Tracks example_codec example_anim ! 1)) =
     8589935 / 8589934592"
proof -
  have l: "length (FloatCurves example_anim) = 2"
    by (simp add: example_anim_def)
  have d: "derive_precision example_codec 0 = 8589935 / 8589934592"
    by (simp add: derive_precision_def example_codec_def)
  show ?thesis
    using track_slot_and_thresholds [of 1 example_anim example_codec]
    by (simp add: l d example_deltas)
qed

text \<open>
  C6. When the external compressor reports a failure, \<^verbatim>\<open>Compress\<close> returns false and the
  output result is the one it was given: neither the bytes nor the codec reference
  change. This is so in every build.
\<close>

theorem compress_failure:
  assumes "compress_track_list acl (Compress_Tracks codec AnimSeq) = Inl CompressionResult"
  shows "Compress build acl codec AnimSeq OutResult = Inr (False, OutResult)"
  using assms by (simp add: Compress_def)

theorem compress_failure_witness:
  "compress_track_list example_library
     (Compress_Tracks example_codec (example_anim\<lparr>FloatCurves := []\<rparr>)) = Inl ''no tracks'' \<and>
   Compress development_build example_library example_codec
     (example_anim\<lparr>FloatCurves := []\<rparr>) example_result = Inr (False, example_result)"
proof -
  have f: "compress_track_list example_library
             (Compress_Tracks example_codec (example_anim\<lparr>FloatCurves := []\<rparr>)) = Inl ''no tracks''"
    by (simp add: Compress_Tracks_no_curves example_library_def)
  from f compress_failure [OF f, of development_build example_result] show ?thesis
    by simp
qed

text \<open>
  C2, as stated, fails. With 42 frames over one second the sample rate is 41 and its
  reciprocal, rounded to single precision, is 3273603/134217728. The last sample, at the
  index 41, is taken at the product of the index and that reciprocal, which rounds to
  16777215/16777216, and not at 41 divided by the sample rate, which is 1: the step curve
  is sampled as 0, where the curve at the clamped quotient is 1.
\<close>

theorem last_sample_not_at_quotient:
  "NumFrames (example_anim\<lparr>NumFrames := 42\<rparr>) = 42 \<and>
   SequenceLength (example_anim\<lparr>NumFrames := 42\<rparr>) = 1 \<and>
   SampleRate 42 1 = 41 \<and>
   samples (Compress_Tracks example_codec (example_anim\<lparr>NumFrames := 42\<rparr>) ! 1) ! 41 = 0 \<and>
   FloatCurve (FloatCurves (example_anim\<lparr>NumFrames := 42\<rparr>) ! 1)
     (FMath_Clamp (fdiv (float_of_int 41) (SampleRate 42 1)) 0 1) = 1"
proof -
  have q: "fdiv (float_of_int 41) 41 = 1"
    by (simp add: fdiv_def float_of_int_def)
  have t: "FMath_Clamp (16777215 / 16777216) 0 1 = 16777215 / 16777216"
    by (simp add: FMath_Clamp_def)
  have "samples (Compress_Tracks example_codec (example_anim\<lparr>NumFrames := 42\<rparr>) ! 1) ! 41 =
          FloatCurve (FloatCurves (example_anim\<lparr>NumFrames := 42\<rparr>) ! 1)
            (FMath_Clamp (fmul (float_of_int (int 41))
               (InvSampleRate (NumFrames (example_anim\<lparr>NumFrames := 42\<rparr>))
                  (SequenceLength (example_anim\<lparr>NumFrames := 42\<rparr>))))
               0 (SequenceLength (example_anim\<lparr>NumFrames := 42\<rparr>)))"
    by (rule Compress_Tracks_samples_nth) (simp_all add: example_anim_def)
  also have "\<dots> = 0"
    by (simp add: example_anim_def example_InvSampleRate_42 example_last_time t)
  finally show ?thesis
    by (simp add: example_anim_def example_SampleRate_42 q FMath_Clamp_def)
qed

text \<open>
  C2, amended. For every curve and every number of samples that is not negative, the
  track holds exactly that many samples, in index order. The sample at index \<open>i\<close> is the
  curve at the time \<open>i\<close> times the reciprocal of the sample rate, clamped between 0 and the
  length of the sequence, where the reciprocal is computed once and rounded to single
  precision and the product is rounded again. This is for a length up to \<open>2 ^ 127\<close>, for
  which the sample rate is positive and its reciprocal finite; beyond it the reciprocal
  can be an infinity in the source. With a single sample the time is the clamp of 0
  between 0 and the length, which is 0 whenever the length is not negative.
\<close>

theorem resampled_track:
  assumes "CurveIndex < length (FloatCurves AnimSeq)" and "0 \<le> NumFrames AnimSeq"
  shows "let NumSamples = NumFrames AnimSeq;
             Length = SequenceLength AnimSeq;
             Eval = FloatCurve (FloatCurves AnimSeq ! CurveIndex);
             Track = samples (Compress_Tracks codec AnimSeq ! CurveIndex)
         in int (length Track) = NumSamples \<and>
            (Length \<le> 2 ^ 127 \<longrightarrow>
               0 < SampleRate NumSamples Length \<and>
               fdiv 1 (SampleRate NumSamples Length) \<le> 2 ^ 127 \<and>
               (\<forall>SampleIndex < length Track.
                  Track ! SampleIndex =
                    Eval (FMath_Clamp
                            (fmul (float_of_int (int SampleIndex))
                               (fdiv 1 (SampleRate NumSamples Length)))
                            0 Length))) \<and>
            (NumSamples = 1 \<longrightarrow> Track = [Eval (FMath_Clamp 0 0 Length)]) \<and>
            (NumSamples = 1 \<and> 0 \<le> Length \<longrightarrow> Track = [Eval 0])"
proof -
  let ?N = "NumFrames AnimSeq"
  let ?L = "SequenceLength AnimSeq"
  let ?Eval = "FloatCurve (FloatCurves AnimSeq ! CurveIndex)"
  let ?T = "samples (Compress_Tracks codec AnimSeq ! CurveIndex)"
  have len: "length ?T = nat ?N"
    using assms(1) by (rule Compress_Tracks_samples_length)
  have nth: "?T ! i = ?Eval (FMath_Clamp (fmul (float_of_int (int i)) (fdiv 1 (SampleRate ?N ?L))) 0 ?L)"
    if "i < length ?T" for i
    using that assms(1) len by (simp add: Compress_Tracks_samples_nth InvSampleRate_def)
  have one: "?T = [?Eval (FMath_Clamp 0 0 ?L)]" if "?N = 1"
    using assms(1) that by (rule Compress_Tracks_single_sample)
  have zero: "FMath_Clamp 0 0 ?L = 0" if "0 \<le> ?L"
    using that by (simp add: FMath_Clamp_def)
  have finite: "0 < SampleRate ?N ?L \<and> fdiv 1 (SampleRate ?N ?L) \<le> 2 ^ 127" if "?L \<le> 2 ^ 127"
    using InvSampleRate_finite [OF that, of ?N] by (simp add: InvSampleRate_def)
  from len nth one zero finite assms(2) show ?thesis
    by (simp add: Let_def)
qed

theorem resampled_track_witness:
  "0 < length (FloatCurves example_anim) \<and> 0 \<le> NumFrames example_anim \<and>
   SequenceLength example_anim \<le> 2 ^ 127 \<and>
   length (samples (Compress_Tracks example_codec example_anim ! 0)) = 4 \<and>
   samples (Compress_Tracks example_codec example_anim ! 0) ! 2 = 11184811 / 16777216 \<and>
   samples (Compress_Tracks example_codec (example_anim\<lparr>NumFrames := 1\<rparr>) ! 0) = [0]"
proof -
  have l: "length (FloatCurves example_anim) = 2" "NumFrames example_anim = 4"
    "SequenceLength example_anim = 1" "FloatCurve (FloatCurves example_anim ! 0) = (\<lambda>t. t)"
    by (simp_all add: example_anim_def)
  have r: "fdiv 1 3 = 11184811 / 33554432"
    by (simp add: fdiv_def to_float_third)
  have t: "FMath_Clamp (fmul (float_of_int 2) (11184811 / 33554432)) 0 1 = 11184811 / 16777216"
    by (simp add: fmul_def float_of_int_def to_float_two_thirds FMath_Clamp_def)
  from resampled_track [of 0 example_anim example_codec]
  have a: "length (samples (Compress_Tracks example_codec example_anim ! 0)) = 4 \<and>
           samples (Compress_Tracks example_codec example_anim ! 0) ! 2 = 11184811 / 16777216"
    by (simp add: l r t example_SampleRate Let_def)
  from resampled_track [of 0 "example_anim\<lparr>NumFrames := 1\<rparr>" example_codec]
  have b: "samples (Compress_Tracks example_codec (example_anim\<lparr>NumFrames := 1\<rparr>) ! 0) = [0]"
    by (simp add: l Let_def FMath_Clamp_def)
  from a b l show ?thesis
    by simp
qed

text \<open>
  C9, as stated, fails. With the morph target precision \<^verbatim>\<open>0.01f\<close> and the two neighbouring
  displacements 14680067/8388608 and 3670017/2097152, both quotients round to the same
  single-precision value 3067833/536870912: the derived precision at the larger
  displacement is not smaller. With the precision 0 it is 0 at every displacement.
\<close>

theorem precision_not_strictly_decreasing:
  "(0::real) < 14680067 / 8388608 \<and> (14680067::real) / 8388608 < 3670017 / 2097152 \<and>
   derive_precision example_codec (14680067 / 8388608) = 3067833 / 536870912 \<and>
   derive_precision example_codec (3670017 / 2097152) = 3067833 / 536870912 \<and>
   \<not> derive_precision \<lparr>CurvePrecision = 8589935 / 8589934592, MorphTargetPositionPrecision = 0,
                        MorphTargetSource = None\<rparr> 2
     < derive_precision \<lparr>CurvePrecision = 8589935 / 8589934592, MorphTargetPositionPrecision = 0,
                          MorphTargetSource = None\<rparr> 1"
proof -
  have "derive_precision example_codec (14680067 / 8388608) =
          to_float (5368709 / 536870912 / (14680067 / 8388608))"
    by (simp add: derive_precision_def example_codec_def fdiv_def)
  also have "\<dots> = 3067833 / 536870912"
    by (subst to_float_eval [of "- 8"]) (simp_all add: round_half_even_def)
  finally have a: "derive_precision example_codec (14680067 / 8388608) = 3067833 / 536870912" .
  have "derive_precision example_codec (3670017 / 2097152) =
          to_float (5368709 / 536870912 / (3670017 / 2097152))"
    by (simp add: derive_precision_def example_codec_def fdiv_def)
  also have "\<dots> = 3067833 / 536870912"
    by (subst to_float_eval [of "- 8"]) (simp_all add: round_half_even_def)
  finally have b: "derive_precision example_codec (3670017 / 2097152) = 3067833 / 536870912" .
  from a b show ?thesis
    by (simp add: derive_precision_def fdiv_def)
qed

text \<open>
  C9, amended. With the configured precisions fixed and the morph target precision not
  negative, the derived precision at a larger positive displacement is not larger than at
  a smaller one; at the displacement 0 it is the configured curve precision.
\<close>

theorem precision_not_increasing:
  assumes "0 \<le> MorphTargetPositionPrecision codec" and "0 < d1" and "d1 < d2"
  shows "derive_precision codec d2 \<le> derive_precision codec d1 \<and>
         derive_precision codec 0 = CurvePrecision codec"
proof -
  from assms have d2: "0 < d2" by simp
  have "MorphTargetPositionPrecision codec / d2 \<le> MorphTargetPositionPrecision codec / d1"
    using assms by (intro divide_left_mono) simp_all
  moreover have "0 \<le> MorphTargetPositionPrecision codec / d2"
    using assms(1) d2 by simp
  ultimately have "to_float (MorphTargetPositionPrecision codec / d2)
                     \<le> to_float (MorphTargetPositionPrecision codec / d1)"
    by (intro to_float_mono)
  with assms d2 show ?thesis
    by (simp add: derive_precision_def fdiv_def)
qed

theorem precision_not_increasing_witness:
  "0 \<le> MorphTargetPositionPrecision example_codec \<and> (0::real) < 5 / 2 \<and> (5::real) / 2 < 5 \<and>
   derive_precision example_codec 5 = 4294967 / 2147483648 \<and>
   derive_precision example_codec 5 \<le> derive_precision example_codec (5 / 2) \<and>
   derive_precision example_codec 0 = 8589935 / 8589934592"
  using precision_not_increasing [of example_codec "5 / 2" 5] example_precision
  by (simp add: example_codec_def derive_precision_def)

section \<open>Properties of the decompression\<close>

text \<open>
  C5, as stated, fails. In a build that evaluates \<^verbatim>\<open>check\<close>, with a list of identities that
  is not empty and does not hold the identity 2, and a blob that does not pass the
  lightweight validity test, the entry point stops at the failed \<^verbatim>\<open>check\<close> and returns
  nothing.
\<close>

theorem missing_curve_can_fail:
  "DO_CHECK development_build \<and>
   2 \<notin> UID ` set [\<lparr>DisplayName = ''Smile'', UID = 1\<rparr>] \<and>
   \<not> is_valid example_library [] False \<and>
   snd (DecompressCurve development_build example_library
          \<lparr>CompressedCurveNames = [\<lparr>DisplayName = ''Smile'', UID = 1\<rparr>],
           CompressedCurveByteStream = []\<rparr> 2 0) = Inl CheckFailed"
  by (simp add: DecompressCurve_absent example_library_def development_build_def)

text \<open>
  C5, amended. When the list of identities is empty or the identity asked for is not in
  it, the decompression of one curve returns exactly 0, for every blob and time, with one
  exception: when the list is not empty, the build evaluates \<^verbatim>\<open>check\<close> and the blob does not
  pass the lightweight validity test, it stops at the fatal assertion and returns nothing.
\<close>

theorem missing_curve_result:
  assumes "CompressedCurveNames AnimSeq = [] \<or>
           CurveUID \<notin> UID ` set (CompressedCurveNames AnimSeq)"
  shows "snd (DecompressCurve build acl AnimSeq CurveUID CurrentTime) =
           (if CompressedCurveNames AnimSeq \<noteq> [] \<and> DO_CHECK build \<and>
               \<not> is_valid acl (CompressedCurveByteStream AnimSeq) False
            then Inl CheckFailed else Inr 0)"
proof -
  from assms have "CurveUID \<notin> UID ` set (CompressedCurveNames AnimSeq)" by auto
  from DecompressCurve_absent [OF this] show ?thesis
    by simp
qed

theorem missing_curve_result_witness:
  "5 \<notin> UID ` set (CompressedCurveNames example_sequence) \<and>
   snd (DecompressCurve development_build example_library example_sequence 5 0) = Inr 0 \<and>
   snd (DecompressCurve development_build example_library
          (example_sequence\<lparr>CompressedCurveNames := []\<rparr>) 7 0) = Inr 0 \<and>
   snd (DecompressCurve shipping_build example_library
          (example_sequence\<lparr>CompressedCurveByteStream := []\<rparr>) 5 0) = Inr 0 \<and>
   snd (DecompressCurve development_build example_library
          (example_sequence\<lparr>CompressedCurveByteStream := []\<rparr>) 5 0) = Inl CheckFailed"
  using missing_curve_result [of example_sequence 5 development_build example_library 0]
    missing_curve_result [of "example_sequence\<lparr>CompressedCurveNames := []\<rparr>" 7
      development_build example_library 0]
    missing_curve_result [of "example_sequence\<lparr>CompressedCurveByteStream := []\<rparr>" 5
      shipping_build example_library 0]
    missing_curve_result [of "example_sequence\<lparr>CompressedCurveByteStream := []\<rparr>" 5
      development_build example_library 0]
  by (simp add: example_sequence_def example_library_def development_build_def shipping_build_def)

text \<open>
  C7. When the decompression of all curves returns, in any build, the buffer has the
  enabled identities it had, and the value of every identity that was not enabled, or
  that is the identity of no track, is the value it had: a value is only written for the
  identity of a track that was already enabled.
\<close>

theorem only_enabled_curves_written:
  assumes "snd (DecompressCurves build acl AnimSeq Curves CurrentTime) = Inr Curves'"
  shows "\<forall>InUid. \<not> IsEnabled Curves InUid \<or> InUid \<notin> UID ` set (CompressedCurveNames AnimSeq) \<longrightarrow>
           CurveWeights Curves' InUid = CurveWeights Curves InUid \<and>
           IsEnabled Curves' InUid = IsEnabled Curves InUid"
  using DecompressCurves_untouched [OF assms]
  by (simp add: untouched_def IsEnabled_def)

theorem only_enabled_curves_written_witness:
  "snd (DecompressCurves development_build example_library example_sequence example_curves 0) =
     Inr (example_curves\<lparr>CurveWeights := (CurveWeights example_curves)(3 := 10)\<rparr>) \<and>
   \<not> IsEnabled example_curves 7 \<and> 7 \<in> UID ` set (CompressedCurveNames example_sequence) \<and>
   IsEnabled example_curves 3 \<and>
   CurveWeights (example_curves\<lparr>CurveWeights := (CurveWeights example_curves)(3 := 10)\<rparr>) 7 =
     CurveWeights example_curves 7"
proof -
  have e: "\<not> IsEnabled example_curves 7" "IsEnabled example_curves 3"
    by (simp_all add: IsEnabled_def example_curves_def)
  have m: "7 \<in> UID ` set (CompressedCurveNames example_sequence)"
    by (simp add: example_sequence_def)
  from only_enabled_curves_written [OF example_DecompressCurves] e(1)
  have "CurveWeights (example_curves\<lparr>CurveWeights := (CurveWeights example_curves)(3 := 10)\<rparr>) 7 =
          CurveWeights example_curves 7"
    by blast
  with e m example_DecompressCurves show ?thesis
    by (intro conjI)
qed

text \<open>
  C8, as stated, fails. The validity test is the expression of a \<^verbatim>\<open>check\<close>: in a build that
  does not evaluate \<^verbatim>\<open>check\<close> it is never called. There, on a blob that does not pass the
  test, both entry points initialise the context, seek and read, and no validity test
  is in the log.
\<close>

theorem no_validation_without_check:
  "\<not> DO_CHECK shipping_build \<and>
   \<not> is_valid example_library
       (CompressedCurveByteStream (example_sequence\<lparr>CompressedCurveByteStream := []\<rparr>)) False \<and>
   fst (DecompressCurves shipping_build example_library
          (example_sequence\<lparr>CompressedCurveByteStream := []\<rparr>) example_curves 0) =
     [Initialize, Seek 0, DecompressTracks] \<and>
   fst (DecompressCurve shipping_build example_library
          (example_sequence\<lparr>CompressedCurveByteStream := []\<rparr>) 7 0) =
     [Initialize, Seek 0, DecompressTrack 1]"
proof -
  have n: "CompressedCurveNames example_sequence \<noteq> []"
    by (simp add: example_sequence_def)
  show ?thesis
    by (simp add: DecompressCurves_eq DecompressCurve_eq example_TrackIndex n shipping_build_def
        example_library_def)
qed

text \<open>
  C8, amended. In a build that evaluates \<^verbatim>\<open>check\<close>, in both entry points and for every
  blob, list of identities and time: every call that works on the decompression context
  (initialising it, seeking, reading tracks) comes after a lightweight validity test,
  which the blob passed; when the list of identities is not empty that test is the first
  call, and a blob that does not pass it stops both entry points at the fatal assertion
  with no other call; when the list is empty the entry points return before any call.
\<close>

theorem validation_precedes_decoding:
  assumes "DO_CHECK build"
    and "calls = fst (DecompressCurves build acl AnimSeq Curves CurrentTime) \<or>
         calls = fst (DecompressCurve build acl AnimSeq CurveUID CurrentTime)"
  shows "(\<forall>k < length calls. uses_context (calls ! k) \<longrightarrow>
            (\<exists>j < k. calls ! j = IsValid False) \<and>
            is_valid acl (CompressedCurveByteStream AnimSeq) False) \<and>
         (CompressedCurveNames AnimSeq \<noteq> [] \<longrightarrow> calls \<noteq> [] \<and> hd calls = IsValid False) \<and>
         (CompressedCurveNames AnimSeq \<noteq> [] \<and>
          \<not> is_valid acl (CompressedCurveByteStream AnimSeq) False \<longrightarrow>
            calls = [IsValid False] \<and>
            snd (DecompressCurves build acl AnimSeq Curves CurrentTime) = Inl CheckFailed \<and>
            snd (DecompressCurve build acl AnimSeq CurveUID CurrentTime) = Inl CheckFailed) \<and>
         (CompressedCurveNames AnimSeq = [] \<longrightarrow> calls = [])"
proof -
  let ?valid = "is_valid acl (CompressedCurveByteStream AnimSeq) False"
  have "\<exists>rest. calls = (if CompressedCurveNames AnimSeq = [] then []
                        else if ?valid then IsValid False # rest else [IsValid False])"
    using assms by (auto simp: DecompressCurves_eq DecompressCurve_eq)
  then obtain rest where c: "calls = (if CompressedCurveNames AnimSeq = [] then []
                        else if ?valid then IsValid False # rest else [IsValid False])" ..
  from validated_calls [OF c]
  have order: "(\<forall>k < length calls. uses_context (calls ! k) \<longrightarrow>
                  (\<exists>j < k. calls ! j = IsValid False) \<and> ?valid) \<and>
               (CompressedCurveNames AnimSeq \<noteq> [] \<longrightarrow> calls \<noteq> [] \<and> hd calls = IsValid False)" .
  have stop: "calls = [IsValid False] \<and>
              snd (DecompressCurves build acl AnimSeq Curves CurrentTime) = Inl CheckFailed \<and>
              snd (DecompressCurve build acl AnimSeq CurveUID CurrentTime) = Inl CheckFailed"
    if "CompressedCurveNames AnimSeq \<noteq> []" "\<not> ?valid"
    using that assms(1) c by (simp add: DecompressCurves_eq DecompressCurve_eq)
  have none: "calls = []" if "CompressedCurveNames AnimSeq = []"
    using that c by simp
  from order stop none show ?thesis
    by blast
qed

theorem validation_precedes_decoding_witness:
  "DO_CHECK development_build \<and>
   fst (DecompressCurves development_build example_library example_sequence example_curves 0) =
     [IsValid False, Initialize, Seek 0, DecompressTracks] \<and>
   fst (DecompressCurve development_build example_library example_sequence 7 0) =
     [IsValid False, Initialize, Seek 0, DecompressTrack 1] \<and>
   uses_context (fst (DecompressCurve development_build example_library example_sequence 7 0) ! 3) \<and>
   (\<exists>j < 3. fst (DecompressCurve development_build example_library example_sequence 7 0) ! j =
              IsValid False) \<and>
   is_valid example_library (CompressedCurveByteStream example_sequence) False"
proof -
  have b: "DO_CHECK development_build"
    by (simp add: development_build_def)
  have n: "CompressedCurveNames example_sequence \<noteq> []"
    by (simp add: example_sequence_def)
  have v: "is_valid example_library (CompressedCurveByteStream example_sequence) False"
    by (simp add: example_sequence_def example_library_def)
  have c: "fst (DecompressCurve development_build example_library example_sequence 7 0) =
             [IsValid False, Initialize, Seek 0, DecompressTrack 1]"
    by (simp add: DecompressCurve_eq n v b example_TrackIndex)
  have d: "fst (DecompressCurves development_build example_library example_sequence example_curves 0) =
             [IsValid False, Initialize, Seek 0, DecompressTracks]"
    by (simp add: DecompressCurves_eq n v b)
  from validation_precedes_decoding
         [OF b, of "fst (DecompressCurve development_build example_library example_sequence 7 0)"
             example_library example_sequence example_curves 0 7]
  have "uses_context (fst (DecompressCurve development_build example_library example_sequence 7 0) ! 3) \<longrightarrow>
        (\<exists>j < 3. fst (DecompressCurve development_build example_library example_sequence 7 0) ! j =
                   IsValid False)"
    by (simp add: c)
  with b c d v show ?thesis
    by simp
qed

text \<open>
  C10. When the identity asked for is in the list, possibly several times, the
  decompression of one curve returns the value of the track at the smallest index that
  holds it; a blob that does not pass the validity test stops the entry point first, in a
  build that evaluates \<^verbatim>\<open>check\<close>.
\<close>

theorem first_match_wins:
  assumes "k < length (CompressedCurveNames AnimSeq)"
    and "UID (CompressedCurveNames AnimSeq ! k) = CurveUID"
    and "\<forall>j < k. UID (CompressedCurveNames AnimSeq ! j) \<noteq> CurveUID"
  shows "snd (DecompressCurve build acl AnimSeq CurveUID CurrentTime) =
           (if DO_CHECK build \<and> \<not> is_valid acl (CompressedCurveByteStream AnimSeq) False
            then Inl CheckFailed
            else Inr (sample_track acl (CompressedCurveByteStream AnimSeq) CurrentTime k))"
  using assms by (subst DecompressCurve_first_match [of k]) auto

theorem first_match_wins_witness:
  "UID (CompressedCurveNames example_sequence ! 0) \<noteq> 7 \<and>
   UID (CompressedCurveNames example_sequence ! 1) = 7 \<and>
   UID (CompressedCurveNames example_sequence ! 2) = 7 \<and>
   snd (DecompressCurve development_build example_library example_sequence 7 0) = Inr 20 \<and>
   snd (DecompressCurve shipping_build example_library example_sequence 7 0) = Inr 20"
  using first_match_wins [of 1 example_sequence 7 development_build example_library 0]
    first_match_wins [of 1 example_sequence 7 shipping_build example_library 0]
  by (simp add: example_sequence_def example_library_def)

end
